theory Spec2Isabelle
  imports Complex_Main
begin

section \<open>NumPy scalars and reductions used by plot.py\<close>

text \<open>
  The script computes with NumPy scalars. A \<^verbatim>\<open>np.float64\<close> is modelled by a real number
  or one of the three IEEE special values; rounding is not modelled, and signed zeros are
  identified (every divisor of the script is the maximum of \<^verbatim>\<open>np.int64\<close> values, whose
  zero is the positive one). The \<^verbatim>\<open>np.int64\<close> results of \<^verbatim>\<open>np.min\<close> and \<^verbatim>\<open>np.max\<close> are
  embedded as \<open>Fin (of_int k)\<close>, which is the conversion NumPy applies as soon as such a
  value meets a division; integers are taken to lie in the 64-bit range.
\<close>

datatype npfloat = Fin real | PInf | NInf | NaN

datatype error = FileNotFoundError | UnicodeDecodeError | KeyError | TypeError
  | ValueError | IndexError

fun isnan :: "npfloat \<Rightarrow> bool" where
  "isnan NaN = True"
| "isnan _ = False"

text \<open>IEEE comparison \<^verbatim>\<open><=\<close>: false as soon as one side is NaN.\<close>

fun fl_le :: "npfloat \<Rightarrow> npfloat \<Rightarrow> bool" where
  "fl_le NaN _ = False"
| "fl_le _ NaN = False"
| "fl_le NInf _ = True"
| "fl_le _ PInf = True"
| "fl_le (Fin a) (Fin b) = (a \<le> b)"
| "fl_le PInf _ = False"
| "fl_le (Fin a) NInf = False"

text \<open>IEEE addition.\<close>

fun fl_add :: "npfloat \<Rightarrow> npfloat \<Rightarrow> npfloat" where
  "fl_add NaN _ = NaN"
| "fl_add _ NaN = NaN"
| "fl_add (Fin a) (Fin b) = Fin (a + b)"
| "fl_add PInf NInf = NaN"
| "fl_add NInf PInf = NaN"
| "fl_add PInf _ = PInf"
| "fl_add _ PInf = PInf"
| "fl_add NInf _ = NInf"
| "fl_add _ NInf = NInf"

text \<open>
  \<^verbatim>\<open>np.true_divide\<close> under NumPy's default error state: a division by zero is reported as
  a warning and yields an infinity of the numerator's sign, or NaN for \<open>0 / 0\<close>; nothing
  is raised.
\<close>

fun fl_div :: "npfloat \<Rightarrow> npfloat \<Rightarrow> npfloat" where
  "fl_div NaN _ = NaN"
| "fl_div _ NaN = NaN"
| "fl_div (Fin a) (Fin b) =
     (if b = 0 then (if a = 0 then NaN else if 0 < a then PInf else NInf)
      else Fin (a / b))"
| "fl_div (Fin a) _ = Fin 0"
| "fl_div PInf (Fin b) = (if 0 \<le> b then PInf else NInf)"
| "fl_div NInf (Fin b) = (if 0 \<le> b then NInf else PInf)"
| "fl_div _ _ = NaN"

text \<open>\<^verbatim>\<open>np.maximum\<close> on two scalars: a NaN operand is returned.\<close>

definition np_maximum :: "npfloat \<Rightarrow> npfloat \<Rightarrow> npfloat" where
  "np_maximum a b = (if isnan a \<or> fl_le b a then a else b)"

text \<open>
  \<^verbatim>\<open>np.max\<close> of a list of floats is \<^verbatim>\<open>np.maximum.reduce\<close>; on an empty sequence it raises
  \<^verbatim>\<open>ValueError\<close> (the reduction has no identity).
\<close>

definition np_max_f :: "npfloat list \<Rightarrow> error + npfloat" where
  "np_max_f xs = (case xs of [] \<Rightarrow> Inl ValueError | y # ys \<Rightarrow> Inr (foldl np_maximum y ys))"

text \<open>
  The four reductions applied to a list of Python integers. \<^verbatim>\<open>np.mean\<close> is
  \<^verbatim>\<open>add.reduce(xs) / n\<close>; \<^verbatim>\<open>np.std\<close> (default \<^verbatim>\<open>ddof=0\<close>) subtracts the mean, multiplies each
  deviation by itself, sums, divides by \<open>n\<close> and takes the square root. On the empty
  list both only warn and return NaN, whereas \<^verbatim>\<open>np.min\<close> and \<^verbatim>\<open>np.max\<close> raise.
\<close>

definition add_reduce :: "real list \<Rightarrow> real" where
  "add_reduce xs = foldl (+) 0 xs"

definition np_mean :: "int list \<Rightarrow> npfloat" where
  "np_mean xs =
     (if xs = [] then NaN else Fin (add_reduce (map real_of_int xs) / real (length xs)))"

definition np_std :: "int list \<Rightarrow> npfloat" where
  "np_std xs =
     (if xs = [] then NaN
      else let arrmean = add_reduce (map real_of_int xs) / real (length xs);
               x = map (\<lambda>k. real_of_int k - arrmean) xs
           in Fin (sqrt (add_reduce (map (\<lambda>d. d * d) x) / real (length xs))))"

definition np_min :: "int list \<Rightarrow> error + int" where
  "np_min xs = (case xs of [] \<Rightarrow> Inl ValueError | y # ys \<Rightarrow> Inr (foldl min y ys))"

definition np_max :: "int list \<Rightarrow> error + int" where
  "np_max xs = (case xs of [] \<Rightarrow> Inl ValueError | y # ys \<Rightarrow> Inr (foldl max y ys))"

section \<open>Aggregation\<close>

text \<open>
  \<^verbatim>\<open>[np.mean(cp), np.std(cp), np.min(cp), np.max(cp)]\<close>: the list display evaluates its
  elements from left to right, so the first exception is the one of \<^verbatim>\<open>np.min\<close>.
\<close>

definition aggregate :: "int list \<Rightarrow> error + npfloat list" where
  "aggregate xs =
     (let a = np_mean xs; s = np_std xs
      in case np_min xs of
           Inl e \<Rightarrow> Inl e
         | Inr lo \<Rightarrow>
             (case np_max xs of
                Inl e \<Rightarrow> Inl e
              | Inr hi \<Rightarrow> Inr [a, s, Fin (real_of_int lo), Fin (real_of_int hi)]))"

text \<open>The textbook statistics the aggregation is compared with.\<close>

definition arithmetic_mean :: "int list \<Rightarrow> real" where
  "arithmetic_mean xs = (\<Sum>i<length xs. real_of_int (xs ! i)) / real (length xs)"

definition population_std :: "int list \<Rightarrow> real" where
  "population_std xs =
     sqrt ((\<Sum>i<length xs. (real_of_int (xs ! i) - arithmetic_mean xs)\<^sup>2) / real (length xs))"

section \<open>List slices\<close>

text \<open>
  \<^verbatim>\<open>xs[a:b]\<close> for non-negative bounds (both are clamped to the length), the slice
  assignment \<^verbatim>\<open>xs[a:b] = ys\<close>, and the augmented assignment \<^verbatim>\<open>xs[a:b] /= s\<close> with a
  NumPy scalar \<open>s\<close>: a list has no division, so the scalar's reflected division turns the
  slice into an array, divides it element-wise, and the result is assigned back.
\<close>

definition slice :: "'a list \<Rightarrow> nat \<Rightarrow> nat \<Rightarrow> 'a list" where
  "slice xs a b = take (b - a) (drop a xs)"

definition slice_assign :: "'a list \<Rightarrow> nat \<Rightarrow> nat \<Rightarrow> 'a list \<Rightarrow> 'a list" where
  "slice_assign xs a b ys = take a xs @ ys @ drop (max a b) xs"

definition slice_idiv :: "npfloat list \<Rightarrow> nat \<Rightarrow> nat \<Rightarrow> npfloat \<Rightarrow> npfloat list" where
  "slice_idiv xs a b s = slice_assign xs a b (map (\<lambda>x. fl_div x s) (slice xs a b))"

section \<open>The experiment grid\<close>

definition setups :: "string list" where
  "setups = [''setup'', ''setup-heterogeneous'', ''setup-distributed'']"

definition traces :: "string list" where
  "traces = [''shell'', ''askalon'', ''pegasus'']"

definition schedulers :: "string list" where
  "schedulers = [''FCP'', ''Lottery'', ''DS'']"

definition job_metrics :: "string list" where
  "job_metrics = [''CP'', ''WT'', ''MS'']"

definition task_metrics :: "string list" where
  "task_metrics = [''EX'', ''WT'', ''TA'']"

section \<open>Files\<close>

text \<open>
  The four parallel lists of a subplot, and what a subplot draws from them: the three
  \<^verbatim>\<open>ax[t].text\<close> calls (x, y, label) and the three \<^verbatim>\<open>ax[t].bar\<close> calls at the nine fixed
  positions (heights, and the error bars of the second). Calls that set decorations
  which do not depend on the data (ticks, title, limits, grid, legend) are left out. A
  figure is the list of its subplots.
\<close>

record bars =
  avg :: "npfloat list"
  std :: "npfloat list"
  mn :: "npfloat list"
  mx :: "npfloat list"

record subplot =
  texts :: "(real \<times> npfloat \<times> string) list"
  rects1 :: "npfloat list"
  rects2 :: "npfloat list"
  yerr :: "npfloat list"
  rects3 :: "npfloat list"

text \<open>
  A CSV file is given by the rows \<^verbatim>\<open>csv.reader\<close> yields: the first (the field names) and
  the rest. A data cell is represented by what \<^verbatim>\<open>int()\<close> makes of its text: an integer, or
  a text that \<^verbatim>\<open>int()\<close> rejects. The file system maps a path to the content of the file there.
\<close>

datatype cell = IntText int | OtherText string

datatype content = Csv "string list" "cell list list" | Pdf "subplot list"

type_synonym fs = "string \<rightharpoonup> content"

text \<open>
  \<^verbatim>\<open>open(path, 'r')\<close> followed by reading: a missing file raises; a PDF written by the
  script is not text.
\<close>

definition open_csv :: "fs \<Rightarrow> string \<Rightarrow> error + string list \<times> cell list list" where
  "open_csv fs path =
     (case fs path of
        None \<Rightarrow> Inl FileNotFoundError
      | Some (Pdf _) \<Rightarrow> Inl UnicodeDecodeError
      | Some (Csv fieldnames rows) \<Rightarrow> Inr (fieldnames, rows))"

text \<open>
  \<^verbatim>\<open>csv.DictReader\<close>: a row becomes \<^verbatim>\<open>dict(zip(fieldnames, row))\<close>, then the field names
  beyond the row's length are bound to \<^verbatim>\<open>None\<close>; of a repeated name the last binding
  stays. Rows that are empty are skipped.
\<close>

definition dict_row :: "string list \<Rightarrow> cell list \<Rightarrow> (string \<rightharpoonup> cell option)" where
  "dict_row fieldnames row =
     map_of (rev (zip fieldnames
       (map Some row @ replicate (length fieldnames - length row) None)))"

text \<open>\<^verbatim>\<open>int(row[col])\<close>.\<close>

definition int_field :: "(string \<rightharpoonup> cell option) \<Rightarrow> string \<Rightarrow> error + int" where
  "int_field d col =
     (case d col of
        None \<Rightarrow> Inl KeyError
      | Some None \<Rightarrow> Inl TypeError
      | Some (Some (IntText k)) \<Rightarrow> Inr k
      | Some (Some (OtherText s)) \<Rightarrow> Inl ValueError)"

text \<open>The loop \<^verbatim>\<open>for row in rd\<close> with its three appends.\<close>

fun read_rows :: "string \<Rightarrow> string \<Rightarrow> string \<Rightarrow> string list \<Rightarrow> cell list list
    \<Rightarrow> int list \<times> int list \<times> int list \<Rightarrow> error + int list \<times> int list \<times> int list" where
  "read_rows c1 c2 c3 fieldnames [] acc = Inr acc"
| "read_rows c1 c2 c3 fieldnames (row # rows) (xs, ys, zs) =
     (if row = [] then read_rows c1 c2 c3 fieldnames rows (xs, ys, zs)
      else let d = dict_row fieldnames row
           in case int_field d c1 of
                Inl e \<Rightarrow> Inl e
              | Inr x \<Rightarrow>
                  (case int_field d c2 of
                     Inl e \<Rightarrow> Inl e
                   | Inr y \<Rightarrow>
                       (case int_field d c3 of
                          Inl e \<Rightarrow> Inl e
                        | Inr z \<Rightarrow>
                            read_rows c1 c2 c3 fieldnames rows
                              (xs @ [x], ys @ [y], zs @ [z]))))"

text \<open>
  The body of the innermost loading loop: read the three columns of one file and store
  the three statistics lists under the metric names.
\<close>

definition load_file :: "fs \<Rightarrow> string \<Rightarrow> string \<times> string \<times> string
    \<Rightarrow> string \<times> string \<times> string \<Rightarrow> error + (string \<rightharpoonup> npfloat list)" where
  "load_file fs path cols mets =
     (case cols of (c1, c2, c3) \<Rightarrow> case mets of (m1, m2, m3) \<Rightarrow>
      case open_csv fs path of
        Inl e \<Rightarrow> Inl e
      | Inr (fieldnames, rows) \<Rightarrow>
          (case read_rows c1 c2 c3 fieldnames rows ([], [], []) of
             Inl e \<Rightarrow> Inl e
           | Inr (xs, ys, zs) \<Rightarrow>
               (case aggregate xs of
                  Inl e \<Rightarrow> Inl e
                | Inr sx \<Rightarrow>
                    (case aggregate ys of
                       Inl e \<Rightarrow> Inl e
                     | Inr sy \<Rightarrow>
                         (case aggregate zs of
                            Inl e \<Rightarrow> Inl e
                          | Inr sz \<Rightarrow> Inr [m1 \<mapsto> sx, m2 \<mapsto> sy, m3 \<mapsto> sz])))))"

definition job_path :: "string \<Rightarrow> string \<Rightarrow> string \<Rightarrow> string" where
  "job_path setup trace sched =
     ''./results/'' @ trace @ ''_'' @ setup @ ''_'' @ sched @ ''/job_metrics.csv''"

definition task_path :: "string \<Rightarrow> string \<Rightarrow> string \<Rightarrow> string" where
  "task_path setup trace sched =
     ''./results/'' @ trace @ ''_'' @ setup @ ''_'' @ sched @ ''/task_metrics.csv''"

definition load_job :: "fs \<Rightarrow> string \<Rightarrow> string \<Rightarrow> string \<Rightarrow> error + (string \<rightharpoonup> npfloat list)" where
  "load_job fs setup trace sched =
     load_file fs (job_path setup trace sched)
       (''critical_path'', ''waiting_time'', ''makespan'') (''CP'', ''WT'', ''MS'')"

definition load_task :: "fs \<Rightarrow> string \<Rightarrow> string \<Rightarrow> string \<Rightarrow> error + (string \<rightharpoonup> npfloat list)" where
  "load_task fs setup trace sched =
     load_file fs (task_path setup trace sched)
       (''execution'', ''waiting'', ''turnaround'') (''EX'', ''WT'', ''TA'')"

section \<open>The results table\<close>

text \<open>
  One level of the nested loading loops: every key of the list is bound, in order, to the
  value computed for it, and the first exception ends the loop. (The script binds the key
  to an empty dictionary first and fills that in place; the table is only read after all
  loops have finished, so the order makes no difference.)
\<close>

fun build_dict :: "('k \<Rightarrow> error + 'v) \<Rightarrow> 'k list \<Rightarrow> ('k \<rightharpoonup> 'v) \<Rightarrow> error + ('k \<rightharpoonup> 'v)" where
  "build_dict f [] d = Inr d"
| "build_dict f (k # ks) d =
     (case f k of Inl e \<Rightarrow> Inl e | Inr v \<Rightarrow> build_dict f ks (d(k \<mapsto> v)))"

type_synonym results = "string \<rightharpoonup> (string \<rightharpoonup> (string \<rightharpoonup> (string \<rightharpoonup> npfloat list)))"

definition load_results :: "(string \<Rightarrow> string \<Rightarrow> string \<Rightarrow> error + (string \<rightharpoonup> npfloat list))
    \<Rightarrow> error + results" where
  "load_results load =
     build_dict (\<lambda>setup.
       build_dict (\<lambda>trace.
         build_dict (\<lambda>sched. load setup trace sched) schedulers Map.empty)
       traces Map.empty)
     setups Map.empty"

definition lookup :: "('k \<rightharpoonup> 'v) \<Rightarrow> 'k \<Rightarrow> error + 'v" where
  "lookup d k = (case d k of None \<Rightarrow> Inl KeyError | Some v \<Rightarrow> Inr v)"

definition index :: "'a list \<Rightarrow> nat \<Rightarrow> error + 'a" where
  "index xs i = (if i < length xs then Inr (xs ! i) else Inl IndexError)"

text \<open>\<^verbatim>\<open>results[setup][trace][sched][metric][k]\<close>.\<close>

definition stat_of :: "results \<Rightarrow> string \<Rightarrow> string \<Rightarrow> string \<Rightarrow> string \<Rightarrow> nat \<Rightarrow> error + npfloat" where
  "stat_of r setup trace sched metric k =
     (case lookup r setup of
        Inl e \<Rightarrow> Inl e
      | Inr r1 \<Rightarrow>
          (case lookup r1 trace of
             Inl e \<Rightarrow> Inl e
           | Inr r2 \<Rightarrow>
               (case lookup r2 sched of
                  Inl e \<Rightarrow> Inl e
                | Inr r3 \<Rightarrow>
                    (case lookup r3 metric of
                       Inl e \<Rightarrow> Inl e
                     | Inr s \<Rightarrow> index s k))))"

section \<open>One subplot\<close>

text \<open>The two nested loops that fill \<^verbatim>\<open>avg\<close>, \<^verbatim>\<open>std\<close>, \<^verbatim>\<open>mn\<close> and \<^verbatim>\<open>mx\<close> by appending.\<close>

fun gather_scheds :: "results \<Rightarrow> string \<Rightarrow> string \<Rightarrow> string \<Rightarrow> string list \<Rightarrow> bars
    \<Rightarrow> error + bars" where
  "gather_scheds r setup trace metric [] b = Inr b"
| "gather_scheds r setup trace metric (sched # ss) b =
     (case stat_of r setup trace sched metric 0 of
        Inl e \<Rightarrow> Inl e
      | Inr a \<Rightarrow>
          (case stat_of r setup trace sched metric 1 of
             Inl e \<Rightarrow> Inl e
           | Inr s \<Rightarrow>
               (case stat_of r setup trace sched metric 2 of
                  Inl e \<Rightarrow> Inl e
                | Inr lo \<Rightarrow>
                    (case stat_of r setup trace sched metric 3 of
                       Inl e \<Rightarrow> Inl e
                     | Inr hi \<Rightarrow>
                         gather_scheds r setup trace metric ss
                           \<lparr>avg = avg b @ [a], std = std b @ [s],
                            mn = mn b @ [lo], mx = mx b @ [hi]\<rparr>))))"

fun gather_metrics :: "results \<Rightarrow> string \<Rightarrow> string \<Rightarrow> string list \<Rightarrow> bars \<Rightarrow> error + bars" where
  "gather_metrics r setup trace [] b = Inr b"
| "gather_metrics r setup trace (metric # ms) b =
     (case gather_scheds r setup trace metric schedulers b of
        Inl e \<Rightarrow> Inl e
      | Inr b' \<Rightarrow> gather_metrics r setup trace ms b')"

definition gather :: "results \<Rightarrow> string list \<Rightarrow> string \<Rightarrow> string \<Rightarrow> error + bars" where
  "gather r metrics setup trace =
     gather_metrics r setup trace metrics \<lparr>avg = [], std = [], mn = [], mx = []\<rparr>"

text \<open>
  The body of the normalisation loop for one \<open>i\<close>: four augmented slice assignments, each
  of which calls \<^verbatim>\<open>np.max\<close> on the slice of \<^verbatim>\<open>mx\<close> as it is at that moment; \<^verbatim>\<open>mx\<close> itself is
  divided last.
\<close>

definition normalize_group :: "nat \<Rightarrow> bars \<Rightarrow> error + bars" where
  "normalize_group i b =
     (case np_max_f (slice (mx b) (i * 3) ((i + 1) * 3)) of
        Inl e \<Rightarrow> Inl e
      | Inr m1 \<Rightarrow>
          (let b1 = b\<lparr>avg := slice_idiv (avg b) (i * 3) ((i + 1) * 3) m1\<rparr>
           in case np_max_f (slice (mx b1) (i * 3) ((i + 1) * 3)) of
                Inl e \<Rightarrow> Inl e
              | Inr m2 \<Rightarrow>
                  (let b2 = b1\<lparr>std := slice_idiv (std b1) (i * 3) ((i + 1) * 3) m2\<rparr>
                   in case np_max_f (slice (mx b2) (i * 3) ((i + 1) * 3)) of
                        Inl e \<Rightarrow> Inl e
                      | Inr m3 \<Rightarrow>
                          (let b3 = b2\<lparr>mn := slice_idiv (mn b2) (i * 3) ((i + 1) * 3) m3\<rparr>
                           in case np_max_f (slice (mx b3) (i * 3) ((i + 1) * 3)) of
                                Inl e \<Rightarrow> Inl e
                              | Inr m4 \<Rightarrow>
                                  Inr (b3\<lparr>mx :=
                                    slice_idiv (mx b3) (i * 3) ((i + 1) * 3) m4\<rparr>)))))"

fun normalize_loop :: "nat list \<Rightarrow> bars \<Rightarrow> error + bars" where
  "normalize_loop [] b = Inr b"
| "normalize_loop (i # is) b =
     (case normalize_group i b of Inl e \<Rightarrow> Inl e | Inr b' \<Rightarrow> normalize_loop is b')"

text \<open>\<^verbatim>\<open>for i, _ in enumerate(metrics)\<close>.\<close>

definition normalize :: "string list \<Rightarrow> bars \<Rightarrow> error + bars" where
  "normalize metrics b = normalize_loop [0..<length metrics] b"

text \<open>
  The second argument of an \<^verbatim>\<open>ax[t].text\<close> call: \<^verbatim>\<open>np.max(mx[a:b]) + .05\<close>, and the form
  with the conditional expression
  \<^verbatim>\<open>np.max(mx[a:b]) + .05 if not np.isnan(np.max(mx[a:b])) else 0.05\<close>,
  whose condition is evaluated first.
\<close>

definition label_y :: "npfloat list \<Rightarrow> nat \<Rightarrow> nat \<Rightarrow> error + npfloat" where
  "label_y ms a b =
     (case np_max_f (slice ms a b) of
        Inl e \<Rightarrow> Inl e
      | Inr m \<Rightarrow> Inr (fl_add m (Fin 0.05)))"

definition label_y_guarded :: "npfloat list \<Rightarrow> nat \<Rightarrow> nat \<Rightarrow> error + npfloat" where
  "label_y_guarded ms a b =
     (case np_max_f (slice ms a b) of
        Inl e \<Rightarrow> Inl e
      | Inr c \<Rightarrow> if \<not> isnan c then label_y ms a b else Inr (Fin 0.05))"

text \<open>The three \<^verbatim>\<open>ax[t].text\<close> calls of the job pass (lines 76 to 78).\<close>

definition job_texts :: "npfloat list \<Rightarrow> error + (real \<times> npfloat \<times> string) list" where
  "job_texts ms =
     (case label_y ms 0 2 of
        Inl e \<Rightarrow> Inl e
      | Inr y0 \<Rightarrow>
          (case label_y_guarded ms 3 6 of
             Inl e \<Rightarrow> Inl e
           | Inr y1 \<Rightarrow>
               (case label_y ms 6 9 of
                  Inl e \<Rightarrow> Inl e
                | Inr y2 \<Rightarrow> Inr [(0.25, y0, ''CP''), (1.25, y1, ''WT''), (2.25, y2, ''MS'')])))"

text \<open>The three \<^verbatim>\<open>ax[t].text\<close> calls of the task pass (lines 162 to 164).\<close>

definition task_texts :: "npfloat list \<Rightarrow> error + (real \<times> npfloat \<times> string) list" where
  "task_texts ms =
     (case label_y ms 0 2 of
        Inl e \<Rightarrow> Inl e
      | Inr y0 \<Rightarrow>
          (case label_y ms 3 6 of
             Inl e \<Rightarrow> Inl e
           | Inr y1 \<Rightarrow>
               (case label_y ms 6 9 of
                  Inl e \<Rightarrow> Inl e
                | Inr y2 \<Rightarrow> Inr [(0.25, y0, ''EX''), (1.25, y1, ''WT''), (2.25, y2, ''TA'')])))"

text \<open>The body of the loop over the traces: gather, normalise, annotate, draw.\<close>

definition draw_subplot :: "(npfloat list \<Rightarrow> error + (real \<times> npfloat \<times> string) list)
    \<Rightarrow> string list \<Rightarrow> results \<Rightarrow> string \<Rightarrow> string \<Rightarrow> error + subplot" where
  "draw_subplot text_calls metrics r setup trace =
     (case gather r metrics setup trace of
        Inl e \<Rightarrow> Inl e
      | Inr b \<Rightarrow>
          (case normalize metrics b of
             Inl e \<Rightarrow> Inl e
           | Inr b' \<Rightarrow>
               (case text_calls (mx b') of
                  Inl e \<Rightarrow> Inl e
                | Inr ts \<Rightarrow>
                    Inr \<lparr>texts = ts, rects1 = mx b', rects2 = avg b', yerr = std b',
                         rects3 = mn b'\<rparr>)))"

fun draw_subplots :: "(npfloat list \<Rightarrow> error + (real \<times> npfloat \<times> string) list)
    \<Rightarrow> string list \<Rightarrow> results \<Rightarrow> string \<Rightarrow> string list \<Rightarrow> error + subplot list" where
  "draw_subplots text_calls metrics r setup [] = Inr []"
| "draw_subplots text_calls metrics r setup (trace # ts) =
     (case draw_subplot text_calls metrics r setup trace of
        Inl e \<Rightarrow> Inl e
      | Inr p \<Rightarrow>
          (case draw_subplots text_calls metrics r setup ts of
             Inl e \<Rightarrow> Inl e
           | Inr ps \<Rightarrow> Inr (p # ps)))"

section \<open>The two passes and the whole script\<close>

text \<open>
  The loop over the setups: each figure is drawn and then saved under the setup's name
  followed by the suffix, replacing whatever the path held. An exception leaves the files
  saved so far in place. The outcome is \<open>None\<close> when the loop ran to its end.
\<close>

fun render :: "(npfloat list \<Rightarrow> error + (real \<times> npfloat \<times> string) list)
    \<Rightarrow> string list \<Rightarrow> string \<Rightarrow> results \<Rightarrow> string list \<Rightarrow> fs \<Rightarrow> error option \<times> fs" where
  "render text_calls metrics suffix r [] fs = (None, fs)"
| "render text_calls metrics suffix r (setup # ss) fs =
     (case draw_subplots text_calls metrics r setup traces of
        Inl e \<Rightarrow> (Some e, fs)
      | Inr fig \<Rightarrow> render text_calls metrics suffix r ss (fs(setup @ suffix \<mapsto> Pdf fig)))"

definition job_pass :: "fs \<Rightarrow> error option \<times> fs" where
  "job_pass fs =
     (case load_results (load_job fs) of
        Inl e \<Rightarrow> (Some e, fs)
      | Inr r \<Rightarrow> render job_texts job_metrics ''_job.pdf'' r setups fs)"

definition task_pass :: "fs \<Rightarrow> error option \<times> fs" where
  "task_pass fs =
     (case load_results (load_task fs) of
        Inl e \<Rightarrow> (Some e, fs)
      | Inr r \<Rightarrow> render task_texts task_metrics ''_task.pdf'' r setups fs)"

definition run :: "fs \<Rightarrow> error option \<times> fs" where
  "run fs =
     (case job_pass fs of
        (Some e, fs') \<Rightarrow> (Some e, fs')
      | (None, fs') \<Rightarrow> task_pass fs')"

section \<open>Auxiliary definitions and sample data\<close>

text \<open>The three divisions of the normalisation loop applied to one list of nine.\<close>

definition div3 :: "npfloat list \<Rightarrow> npfloat \<Rightarrow> npfloat \<Rightarrow> npfloat \<Rightarrow> npfloat list" where
  "div3 xs m0 m1 m2 = slice_idiv (slice_idiv (slice_idiv xs 0 3 m0) 3 6 m1) 6 9 m2"

text \<open>
  Raw statistics of one subplot: in the first group the third scheduler has the largest
  maximum, in the second group every value is zero.
\<close>

definition example_bars :: bars where
  "example_bars =
     \<lparr>avg = [Fin 0.5, Fin 1, Fin 3, Fin 0, Fin 0, Fin 0, Fin 150, Fin 150, Fin 200],
      std = [Fin 0.5, Fin 1, Fin 1, Fin 0, Fin 0, Fin 0, Fin 50, Fin 50, Fin 100],
      mn = [Fin 0, Fin 0, Fin 2, Fin 0, Fin 0, Fin 0, Fin 100, Fin 100, Fin 100],
      mx = [Fin 1, Fin 2, Fin 4, Fin 0, Fin 0, Fin 0, Fin 100, Fin 200, Fin 300]\<rparr>"

definition example_mx :: "npfloat list" where
  "example_mx = [Fin (1/4), Fin (1/2), Fin 1, NaN, NaN, NaN, Fin (1/3), Fin (2/3), Fin 1]"

text \<open>
  Raw statistics where the first scheduler's column of the first metric is \<open>[-2, 0]\<close> and
  the two other schedulers have the single value \<open>0\<close>; every other column is \<open>[1]\<close>.
\<close>

definition negative_bars :: bars where
  "negative_bars =
     \<lparr>avg = [Fin (- 1), Fin 0, Fin 0, Fin 1, Fin 1, Fin 1, Fin 1, Fin 1, Fin 1],
      std = [Fin 1, Fin 0, Fin 0, Fin 0, Fin 0, Fin 0, Fin 0, Fin 0, Fin 0],
      mn = [Fin (- 2), Fin 0, Fin 0, Fin 1, Fin 1, Fin 1, Fin 1, Fin 1, Fin 1],
      mx = [Fin 0, Fin 0, Fin 0, Fin 1, Fin 1, Fin 1, Fin 1, Fin 1, Fin 1]\<rparr>"

text \<open>Raw statistics where every metric value of the subplot is zero.\<close>

definition zero_bars :: bars where
  "zero_bars =
     \<lparr>avg = replicate 9 (Fin 0), std = replicate 9 (Fin 0),
      mn = replicate 9 (Fin 0), mx = replicate 9 (Fin 0)\<rparr>"

section \<open>Input conditions and sample files\<close>

text \<open>
  A file is usable for three columns when it is a CSV file with at least one non-empty
  data row and each such row has a cell that \<^verbatim>\<open>int()\<close> accepts under each of the three
  names. The inputs are usable when this holds for the job and the task file of every
  point of the grid.
\<close>

definition int_cell :: "string list \<Rightarrow> cell list \<Rightarrow> string \<Rightarrow> bool" where
  "int_cell fieldnames row col =
     (case dict_row fieldnames row col of Some (Some (IntText k)) \<Rightarrow> True | _ \<Rightarrow> False)"

definition usable :: "string \<times> string \<times> string \<Rightarrow> content option \<Rightarrow> bool" where
  "usable cols f =
     (case cols of (c1, c2, c3) \<Rightarrow>
      case f of
        Some (Csv fieldnames rows) \<Rightarrow>
          (\<exists>row\<in>set rows. row \<noteq> [])
          \<and> (\<forall>row\<in>set rows. row \<noteq> [] \<longrightarrow>
                int_cell fieldnames row c1 \<and> int_cell fieldnames row c2
                \<and> int_cell fieldnames row c3)
      | _ \<Rightarrow> False)"

definition inputs_usable :: "fs \<Rightarrow> bool" where
  "inputs_usable fs =
     (\<forall>setup\<in>set setups. \<forall>trace\<in>set traces. \<forall>sched\<in>set schedulers.
        usable (''critical_path'', ''waiting_time'', ''makespan'')
          (fs (job_path setup trace sched))
        \<and> usable (''execution'', ''waiting'', ''turnaround'')
          (fs (task_path setup trace sched)))"


text \<open>
  Sample inputs: the same job file and the same task file at every point of the grid, a
  second file system that differs from the first in every job file, and a third one in
  which one job file has field names only.
\<close>

definition job_paths :: "string list" where
  "job_paths = concat (map (\<lambda>setup. concat (map (\<lambda>trace.
     map (\<lambda>sched. job_path setup trace sched) schedulers) traces)) setups)"

definition task_paths :: "string list" where
  "task_paths = concat (map (\<lambda>setup. concat (map (\<lambda>trace.
     map (\<lambda>sched. task_path setup trace sched) schedulers) traces)) setups)"

definition job_csv :: content where
  "job_csv = Csv [''critical_path'', ''waiting_time'', ''makespan'']
     [[IntText 10, IntText 1, IntText 100], [IntText 20, IntText 2, IntText 200],
      [IntText 30, IntText 3, IntText 300]]"

definition job_csv_other :: content where
  "job_csv_other = Csv [''critical_path'', ''waiting_time'', ''makespan'']
     [[IntText 7, IntText 0, IntText 9]]"

definition task_csv :: content where
  "task_csv = Csv [''execution'', ''waiting'', ''turnaround'']
     [[IntText 5, IntText 1, IntText 6], [IntText 7, IntText 2, IntText 9]]"

definition sample_fs :: fs where
  "sample_fs p =
     (if p \<in> set task_paths then Some task_csv
      else if p \<in> set job_paths then Some job_csv else None)"

definition other_fs :: fs where
  "other_fs p =
     (if p \<in> set task_paths then Some task_csv
      else if p \<in> set job_paths then Some job_csv_other else None)"

definition header_only_fs :: fs where
  "header_only_fs = sample_fs(job_path ''setup'' ''shell'' ''FCP'' \<mapsto>
     Csv [''critical_path'', ''waiting_time'', ''makespan''] [])"

section \<open>The aggregation computes the standard statistics\<close>

lemma foldl_add_sum_list: "foldl (+) a xs = a + sum_list (xs::real list)"
  by (induction xs arbitrary: a) simp_all

lemma add_reduce_sum_list: "add_reduce xs = sum_list xs"
  by (simp add: add_reduce_def foldl_add_sum_list)

lemma sum_list_map_nth: "sum_list (map f xs) = (\<Sum>i<length xs. (f (xs ! i) :: real))"
proof -
  have "sum_list (map f xs) = (\<Sum>i = 0..<length (map f xs). map f xs ! i)"
    by (rule sum_list_sum_nth)
  also have "\<dots> = (\<Sum>i<length xs. f (xs ! i))"
    by (simp add: atLeast0LessThan)
  finally show ?thesis .
qed

lemma foldl_min_Min: "foldl min y ys = Min (set (y # ys :: int list))"
proof -
  have "(\<lambda>x s. min s x) = (min :: int \<Rightarrow> int \<Rightarrow> int)"
    by (intro ext) (rule min.commute)
  then show ?thesis
    unfolding Min.set_eq_fold foldl_conv_fold by simp
qed

lemma foldl_max_Max: "foldl max y ys = Max (set (y # ys :: int list))"
proof -
  have "(\<lambda>x s. max s x) = (max :: int \<Rightarrow> int \<Rightarrow> int)"
    by (intro ext) (rule max.commute)
  then show ?thesis
    unfolding Max.set_eq_fold foldl_conv_fold by simp
qed

lemma np_min_Min: "xs \<noteq> [] \<Longrightarrow> np_min xs = Inr (Min (set xs))"
  by (cases xs) (simp_all add: np_min_def foldl_min_Min del: set_simps)

lemma np_max_Max: "xs \<noteq> [] \<Longrightarrow> np_max xs = Inr (Max (set xs))"
  by (cases xs) (simp_all add: np_max_def foldl_max_Max del: set_simps)

lemma np_mean_arith: "xs \<noteq> [] \<Longrightarrow> np_mean xs = Fin (arithmetic_mean xs)"
  by (simp add: np_mean_def arithmetic_mean_def add_reduce_sum_list sum_list_map_nth)

lemma np_std_pop: "xs \<noteq> [] \<Longrightarrow> np_std xs = Fin (population_std xs)"
  by (simp add: np_std_def population_std_def arithmetic_mean_def add_reduce_sum_list
      sum_list_map_nth o_def power2_eq_square Let_def)

lemma aggregate_nonempty:
  "xs \<noteq> [] \<Longrightarrow>
   aggregate xs = Inr [Fin (arithmetic_mean xs), Fin (population_std xs),
                       Fin (real_of_int (Min (set xs))), Fin (real_of_int (Max (set xs)))]"
  by (simp add: aggregate_def np_min_Min np_max_Max np_mean_arith np_std_pop)







section \<open>Normalisation\<close>

lemma length_slice: "b \<le> length xs \<Longrightarrow> length (slice xs a b) = b - a"
  by (simp add: slice_def)

lemma nth_slice: "b \<le> length xs \<Longrightarrow> k < b - a \<Longrightarrow> slice xs a b ! k = xs ! (a + k)"
  by (simp add: slice_def)

lemma length_slice_idiv:
  "a \<le> b \<Longrightarrow> b \<le> length xs \<Longrightarrow> length (slice_idiv xs a b s) = length xs"
  by (simp add: slice_idiv_def slice_assign_def slice_def)

lemma nth_slice_idiv:
  assumes "a \<le> b" "b \<le> length xs" "j < length xs"
  shows "slice_idiv xs a b s ! j = (if a \<le> j \<and> j < b then fl_div (xs ! j) s else xs ! j)"
proof -
  consider "j < a" | "a \<le> j" "j < b" | "b \<le> j" by linarith
  then show ?thesis
  proof cases
    case 1
    then show ?thesis using assms
      by (simp add: slice_idiv_def slice_assign_def slice_def nth_append)
  next
    case 2
    then have "j - a < b - a" by linarith
    with 2 show ?thesis using assms
      by (simp add: slice_idiv_def slice_assign_def slice_def nth_append)
  next
    case 3
    then have "\<not> j - a < b - a" "j - a - (b - a) = j - b" using assms by linarith+
    with 3 show ?thesis using assms
      by (simp add: slice_idiv_def slice_assign_def slice_def nth_append max_def)
  qed
qed

lemma slice_slice_idiv_disjoint:
  assumes "a \<le> b" "b \<le> length xs" "d \<le> length xs" "b \<le> c \<or> d \<le> a"
  shows "slice (slice_idiv xs a b s) c d = slice xs c d"
proof (rule nth_equalityI)
  show "length (slice (slice_idiv xs a b s) c d) = length (slice xs c d)"
    using assms by (simp add: length_slice length_slice_idiv)
next
  fix k assume "k < length (slice (slice_idiv xs a b s) c d)"
  then have k: "k < d - c" using assms by (simp add: length_slice length_slice_idiv)
  then show "slice (slice_idiv xs a b s) c d ! k = slice xs c d ! k"
    using assms by (auto simp add: nth_slice length_slice_idiv nth_slice_idiv)
qed

lemma np_max_f_nonempty: "xs \<noteq> [] \<Longrightarrow> \<exists>m. np_max_f xs = Inr m"
  by (cases xs) (simp_all add: np_max_f_def)

lemma np_max_f_slice:
  "a < b \<Longrightarrow> b \<le> length xs \<Longrightarrow> \<exists>m. np_max_f (slice xs a b) = Inr m"
  by (rule np_max_f_nonempty) (metis length_slice list.size(3) zero_less_diff less_numeral_extra(3))

lemma normalize_group_eq:
  assumes "np_max_f (slice (mx b) (i * 3) ((i + 1) * 3)) = Inr m"
  shows "normalize_group i b =
    Inr \<lparr>avg = slice_idiv (avg b) (i * 3) ((i + 1) * 3) m,
         std = slice_idiv (std b) (i * 3) ((i + 1) * 3) m,
         mn = slice_idiv (mn b) (i * 3) ((i + 1) * 3) m,
         mx = slice_idiv (mx b) (i * 3) ((i + 1) * 3) m\<rparr>"
  using assms by (simp add: normalize_group_def)

lemma length_div3: "length xs = 9 \<Longrightarrow> length (div3 xs m0 m1 m2) = 9"
  by (simp add: div3_def length_slice_idiv)

lemma nth_div3:
  "length xs = 9 \<Longrightarrow> j < 9 \<Longrightarrow>
   div3 xs m0 m1 m2 ! j = fl_div (xs ! j) (if j < 3 then m0 else if j < 6 then m1 else m2)"
  by (simp add: div3_def length_slice_idiv nth_slice_idiv)

lemma upt3: "[0..<3] = [0, 1, 2]"
  by (simp add: upt_rec)

lemmas eval_simps = slice_def slice_idiv_def slice_assign_def np_max_f_def np_maximum_def
  normalize_def normalize_group_def upt3 job_metrics_def task_metrics_def
  label_y_def label_y_guarded_def job_texts_def task_texts_def

lemma normalize_three:
  assumes len: "length metrics = 3" "length (mx b) = 9"
    and m0: "np_max_f (slice (mx b) 0 3) = Inr m0"
    and m1: "np_max_f (slice (mx b) 3 6) = Inr m1"
    and m2: "np_max_f (slice (mx b) 6 9) = Inr m2"
  shows "normalize metrics b =
    Inr \<lparr>avg = div3 (avg b) m0 m1 m2, std = div3 (std b) m0 m1 m2,
         mn = div3 (mn b) m0 m1 m2, mx = div3 (mx b) m0 m1 m2\<rparr>"
proof -
  let ?b1 = "\<lparr>avg = slice_idiv (avg b) 0 3 m0, std = slice_idiv (std b) 0 3 m0,
              mn = slice_idiv (mn b) 0 3 m0, mx = slice_idiv (mx b) 0 3 m0\<rparr>"
  let ?b2 = "\<lparr>avg = slice_idiv (slice_idiv (avg b) 0 3 m0) 3 6 m1,
              std = slice_idiv (slice_idiv (std b) 0 3 m0) 3 6 m1,
              mn = slice_idiv (slice_idiv (mn b) 0 3 m0) 3 6 m1,
              mx = slice_idiv (slice_idiv (mx b) 0 3 m0) 3 6 m1\<rparr>"
  have s0: "normalize_group 0 b = Inr ?b1"
    using normalize_group_eq [of b 0 m0] m0 by simp
  have "slice (mx ?b1) 3 6 = slice (mx b) 3 6"
    using len by (simp add: slice_slice_idiv_disjoint)
  then have s1: "normalize_group (Suc 0) ?b1 = Inr ?b2"
    using normalize_group_eq [of ?b1 "Suc 0" m1] m1 by simp
  have "slice (mx ?b2) 6 9 = slice (mx b) 6 9"
    using len by (simp add: slice_slice_idiv_disjoint length_slice_idiv)
  then have s2: "normalize_group 2 ?b2 =
      Inr \<lparr>avg = div3 (avg b) m0 m1 m2, std = div3 (std b) m0 m1 m2,
           mn = div3 (mn b) m0 m1 m2, mx = div3 (mx b) m0 m1 m2\<rparr>"
    using normalize_group_eq [of ?b2 2 m2] m2 by (simp add: div3_def)
  show ?thesis
    by (simp add: normalize_def len upt3 s0 s1 s2)
qed

lemma normalize_nth:
  assumes len: "length metrics = 3" "length (avg b) = 9" "length (std b) = 9"
      "length (mn b) = 9" "length (mx b) = 9"
    and i: "i < 3"
    and m: "np_max_f (slice (mx b) (i * 3) ((i + 1) * 3)) = Inr m"
    and j: "i * 3 \<le> j" "j < (i + 1) * 3"
  shows "\<exists>b'. normalize metrics b = Inr b'
    \<and> avg b' ! j = fl_div (avg b ! j) m \<and> std b' ! j = fl_div (std b ! j) m
    \<and> mn b' ! j = fl_div (mn b ! j) m \<and> mx b' ! j = fl_div (mx b ! j) m"
proof -
  obtain m0 where m0: "np_max_f (slice (mx b) 0 3) = Inr m0"
    using np_max_f_slice [of 0 3 "mx b"] len by auto
  obtain m1 where m1: "np_max_f (slice (mx b) 3 6) = Inr m1"
    using np_max_f_slice [of 3 6 "mx b"] len by auto
  obtain m2 where m2: "np_max_f (slice (mx b) 6 9) = Inr m2"
    using np_max_f_slice [of 6 9 "mx b"] len by auto
  have j9: "j < 9" using i j by simp
  consider "i = 0" | "i = 1" | "i = 2" using i by linarith
  then have sel: "(if j < 3 then m0 else if j < 6 then m1 else m2) = m"
  proof cases
    case 1 then show ?thesis using m m0 j by simp
  next
    case 2 then show ?thesis using m m1 j by simp
  next
    case 3 then show ?thesis using m m2 j by simp
  qed
  show ?thesis
    using normalize_three [OF len(1) len(5) m0 m1 m2] len j9 sel
    by (simp add: nth_div3)
qed

lemma fl_div_Fin: "m \<noteq> 0 \<Longrightarrow> fl_div (Fin x) (Fin m) = Fin (x / m)"
  by simp

lemma fl_div_pos_mono:
  "0 < m \<Longrightarrow> fl_le a c \<Longrightarrow> fl_le (fl_div a (Fin m)) (fl_div c (Fin m))"
  by (cases a; cases c) (simp_all add: divide_right_mono)







text \<open>
  Claim C9. One pass of the loop body divides the four slices of group \<open>i\<close> by one and
  the same scalar, the maximum of the \<^verbatim>\<open>mx\<close> slice as it was before the body ran (the
  slice of \<^verbatim>\<open>mx\<close> is overwritten last). Hence, when that maximum \<open>m\<close> is positive, a
  position \<open>j\<close> of the group with minimum \<open>\<le>\<close> average \<open>\<le>\<close> maximum before the
  normalisation has the same order afterwards.
\<close>

theorem normalize_keeps_order:
  assumes "length metrics = 3"
    and "length (avg b) = 9" "length (std b) = 9" "length (mn b) = 9" "length (mx b) = 9"
    and "i < 3"
    and "np_max_f (slice (mx b) (i * 3) ((i + 1) * 3)) = Inr (Fin m)" and "0 < m"
    and "i * 3 \<le> j" "j < (i + 1) * 3"
    and "fl_le (mn b ! j) (avg b ! j)" "fl_le (avg b ! j) (mx b ! j)"
  shows "normalize_group i b =
      Inr \<lparr>avg = slice_idiv (avg b) (i * 3) ((i + 1) * 3) (Fin m),
           std = slice_idiv (std b) (i * 3) ((i + 1) * 3) (Fin m),
           mn = slice_idiv (mn b) (i * 3) ((i + 1) * 3) (Fin m),
           mx = slice_idiv (mx b) (i * 3) ((i + 1) * 3) (Fin m)\<rparr>
    \<and> (\<exists>b'. normalize metrics b = Inr b'
          \<and> fl_le (mn b' ! j) (avg b' ! j) \<and> fl_le (avg b' ! j) (mx b' ! j))"
proof -
  obtain b' where b': "normalize metrics b = Inr b'"
      "avg b' ! j = fl_div (avg b ! j) (Fin m)"
      "mn b' ! j = fl_div (mn b ! j) (Fin m)" "mx b' ! j = fl_div (mx b ! j) (Fin m)"
    using normalize_nth [OF assms(1-7) assms(9,10)] by blast
  have "fl_le (mn b' ! j) (avg b' ! j)" "fl_le (avg b' ! j) (mx b' ! j)"
    using b' assms(8,11,12) by (simp_all add: fl_div_pos_mono)
  then show ?thesis
    using b'(1) normalize_group_eq [OF assms(7)] by blast
qed

theorem normalize_keeps_order_witness:
  "np_max_f (slice (mx example_bars) (2 * 3) ((2 + 1) * 3)) = Inr (Fin 300)
   \<and> fl_le (mn example_bars ! 7) (avg example_bars ! 7)
   \<and> fl_le (avg example_bars ! 7) (mx example_bars ! 7)
   \<and> (\<exists>b'. normalize job_metrics example_bars = Inr b'
         \<and> fl_le (mn b' ! 7) (avg b' ! 7) \<and> fl_le (avg b' ! 7) (mx b' ! 7))"
  using normalize_keeps_order [of job_metrics example_bars 2 300 7]
  by (auto simp add: example_bars_def job_metrics_def slice_def np_max_f_def np_maximum_def)


lemma slice3:
  "a + 3 \<le> length xs \<Longrightarrow> slice xs a (a + 3) = [xs ! a, xs ! (a + 1), xs ! (a + 2)]"
  by (rule nth_equalityI) (auto simp add: length_slice nth_slice less_Suc_eq numeral_3_eq_3)

lemma fl_div_zero:
  "fl_div (Fin x) (Fin 0) = (if x = 0 then NaN else if 0 < x then PInf else NInf)"
  by simp

lemma aggregate_zero_max:
  assumes "xs \<noteq> []" "\<forall>x\<in>set xs. 0 \<le> x" "np_max xs = Inr 0"
  shows "aggregate xs = Inr [Fin 0, Fin 0, Fin 0, Fin 0]"
proof -
  have mx0: "Max (set xs) = 0" using assms(1,3) by (simp add: np_max_Max)
  have all0: "x = 0" if "x \<in> set xs" for x
  proof -
    have "x \<le> Max (set xs)" using that by simp
    then show ?thesis using mx0 assms(2) that by force
  qed
  then have nth0: "xs ! i = 0" if "i < length xs" for i using that by simp
  have "set xs = {0}" using all0 assms(1) by (cases xs) auto
  then have mn0: "Min (set xs) = 0" by simp
  have mean0: "arithmetic_mean xs = 0" by (simp add: arithmetic_mean_def nth0)
  have "population_std xs = 0" by (simp add: population_std_def mean0 nth0)
  then show ?thesis using mean0 mn0 mx0 by (simp add: aggregate_nonempty assms(1))
qed

text \<open>
  Claim C6, as amended. If every raw \<^verbatim>\<open>mx\<close> value of group \<open>i\<close> is zero, the normalisation
  loop ends without an exception; at every position of the group the \<^verbatim>\<open>mx\<close> value becomes
  NaN, and a value \<open>x\<close> of \<^verbatim>\<open>avg\<close>, \<^verbatim>\<open>std\<close> or \<^verbatim>\<open>mn\<close> becomes NaN when \<open>x = 0\<close>, plus infinity
  when \<open>x > 0\<close> and minus infinity when \<open>x < 0\<close>. Nothing else is substituted. (A column of
  non-negative integers whose maximum is zero has mean, deviation and minimum zero, so
  for such data every value of the group becomes NaN.)
\<close>

theorem normalize_zero_group:
  assumes "length metrics = 3"
    and "length (avg b) = 9" "length (std b) = 9" "length (mn b) = 9" "length (mx b) = 9"
    and "i < 3"
    and "\<forall>k. i * 3 \<le> k \<and> k < (i + 1) * 3 \<longrightarrow> mx b ! k = Fin 0"
    and "i * 3 \<le> j" "j < (i + 1) * 3"
  shows "(\<exists>b'. normalize metrics b = Inr b'
      \<and> mx b' ! j = NaN
      \<and> (\<forall>x. avg b ! j = Fin x \<longrightarrow>
            avg b' ! j = (if x = 0 then NaN else if 0 < x then PInf else NInf))
      \<and> (\<forall>x. std b ! j = Fin x \<longrightarrow>
            std b' ! j = (if x = 0 then NaN else if 0 < x then PInf else NInf))
      \<and> (\<forall>x. mn b ! j = Fin x \<longrightarrow>
            mn b' ! j = (if x = 0 then NaN else if 0 < x then PInf else NInf)))
    \<and> (\<forall>xs. xs \<noteq> [] \<and> (\<forall>x\<in>set xs. 0 \<le> x) \<and> np_max xs = Inr 0 \<longrightarrow>
          aggregate xs = Inr [Fin 0, Fin 0, Fin 0, Fin 0])"
proof -
  have eq: "(i + 1) * 3 = i * 3 + 3" by simp
  have "i * 3 + 3 \<le> length (mx b)" using assms(5,6) by simp
  then have "slice (mx b) (i * 3) ((i + 1) * 3)
      = [mx b ! (i * 3), mx b ! (i * 3 + 1), mx b ! (i * 3 + 2)]"
    unfolding eq by (rule slice3)
  also have "\<dots> = [Fin 0, Fin 0, Fin 0]" using assms(7) by simp
  finally have m: "np_max_f (slice (mx b) (i * 3) ((i + 1) * 3)) = Inr (Fin 0)"
    by (simp add: np_max_f_def np_maximum_def)
  obtain b' where b': "normalize metrics b = Inr b'"
      "avg b' ! j = fl_div (avg b ! j) (Fin 0)" "std b' ! j = fl_div (std b ! j) (Fin 0)"
      "mn b' ! j = fl_div (mn b ! j) (Fin 0)" "mx b' ! j = fl_div (mx b ! j) (Fin 0)"
    using normalize_nth [OF assms(1-6) m assms(8,9)] by blast
  have "mx b ! j = Fin 0" using assms(7,8,9) by simp
  then have "\<exists>b'. normalize metrics b = Inr b'
      \<and> mx b' ! j = NaN
      \<and> (\<forall>x. avg b ! j = Fin x \<longrightarrow>
            avg b' ! j = (if x = 0 then NaN else if 0 < x then PInf else NInf))
      \<and> (\<forall>x. std b ! j = Fin x \<longrightarrow>
            std b' ! j = (if x = 0 then NaN else if 0 < x then PInf else NInf))
      \<and> (\<forall>x. mn b ! j = Fin x \<longrightarrow>
            mn b' ! j = (if x = 0 then NaN else if 0 < x then PInf else NInf))"
    using b' by (auto simp add: fl_div_zero)
  then show ?thesis using aggregate_zero_max by blast
qed

theorem normalize_zero_group_witness:
  "mx example_bars ! 3 = Fin 0 \<and> mx example_bars ! 4 = Fin 0 \<and> mx example_bars ! 5 = Fin 0
   \<and> (\<exists>b'. normalize job_metrics example_bars = Inr b'
         \<and> mx b' ! 4 = NaN \<and> avg b' ! 4 = NaN \<and> std b' ! 4 = NaN \<and> mn b' ! 4 = NaN)
   \<and> np_max [0, 0] = Inr 0
   \<and> aggregate [0, 0] = Inr [Fin 0, Fin 0, Fin 0, Fin 0]"
proof -
  have z: "\<forall>k. 1 * 3 \<le> k \<and> k < (1 + 1) * 3 \<longrightarrow> mx example_bars ! k = Fin 0"
  proof (intro allI impI)
    fix k :: nat assume "1 * 3 \<le> k \<and> k < (1 + 1) * 3"
    then have "k = 3 \<or> k = 4 \<or> k = 5" by auto
    then show "mx example_bars ! k = Fin 0" by (auto simp add: example_bars_def)
  qed
  have a: "[0, 0] \<noteq> ([] :: int list) \<and> (\<forall>x\<in>set [0, 0 :: int]. 0 \<le> x)
      \<and> np_max [0, 0] = Inr 0"
    by (simp add: np_max_def)
  have "length job_metrics = 3" "length (avg example_bars) = 9"
      "length (std example_bars) = 9" "length (mn example_bars) = 9"
      "length (mx example_bars) = 9" "(1::nat) < 3" "1 * 3 \<le> (4::nat)" "(4::nat) < (1 + 1) * 3"
    by (simp_all add: example_bars_def job_metrics_def)
  from normalize_zero_group [OF this(1-6) z this(7,8)] a
  have "(\<exists>b'. normalize job_metrics example_bars = Inr b'
         \<and> mx b' ! 4 = NaN \<and> avg b' ! 4 = NaN \<and> std b' ! 4 = NaN \<and> mn b' ! 4 = NaN)"
      "aggregate [0, 0] = Inr [Fin 0, Fin 0, Fin 0, Fin 0]"
    by (auto simp add: example_bars_def)
  then show ?thesis using a by (simp add: example_bars_def)
qed

text \<open>
  The claim as first stated (NaN at every position of the \<^verbatim>\<open>avg\<close>, \<^verbatim>\<open>std\<close>, \<^verbatim>\<open>mn\<close> and
  \<^verbatim>\<open>mx\<close> lists) fails when a column holds a negative value: the column \<open>[-2, 0]\<close> has
  maximum 0, mean \<open>-1\<close>, deviation 1 and minimum \<open>-2\<close>, and in a group whose maxima are all
  zero these become minus infinity, plus infinity and minus infinity.
\<close>

theorem zero_group_all_nan_counterexample:
  "aggregate [- 2, 0] = Inr [Fin (- 1), Fin 1, Fin (- 2), Fin 0]
   \<and> slice (mx negative_bars) 0 3 = [Fin 0, Fin 0, Fin 0]
   \<and> normalize job_metrics negative_bars =
       Inr \<lparr>avg = [NInf, NaN, NaN, Fin 1, Fin 1, Fin 1, Fin 1, Fin 1, Fin 1],
            std = [PInf, NaN, NaN, Fin 0, Fin 0, Fin 0, Fin 0, Fin 0, Fin 0],
            mn = [NInf, NaN, NaN, Fin 1, Fin 1, Fin 1, Fin 1, Fin 1, Fin 1],
            mx = [NaN, NaN, NaN, Fin 1, Fin 1, Fin 1, Fin 1, Fin 1, Fin 1]\<rparr>"
proof -
  have "aggregate [- 2, 0] = Inr [Fin (- 1), Fin 1, Fin (- 2), Fin 0]"
    by (simp add: aggregate_def np_mean_def np_std_def np_min_def np_max_def add_reduce_def)
  moreover have "slice (mx negative_bars) 0 3 = [Fin 0, Fin 0, Fin 0]"
    by (simp add: negative_bars_def slice_def)
  moreover have "normalize job_metrics negative_bars =
       Inr \<lparr>avg = [NInf, NaN, NaN, Fin 1, Fin 1, Fin 1, Fin 1, Fin 1, Fin 1],
            std = [PInf, NaN, NaN, Fin 0, Fin 0, Fin 0, Fin 0, Fin 0, Fin 0],
            mn = [NInf, NaN, NaN, Fin 1, Fin 1, Fin 1, Fin 1, Fin 1, Fin 1],
            mx = [NaN, NaN, NaN, Fin 1, Fin 1, Fin 1, Fin 1, Fin 1, Fin 1]\<rparr>"
    by (simp add: negative_bars_def eval_simps)
  ultimately show ?thesis by simp
qed

section \<open>Label placement\<close>

lemma label_y_eq:
  "np_max_f (slice ms a b) = Inr c \<Longrightarrow> label_y ms a b = Inr (fl_add c (Fin 0.05))"
  by (simp add: label_y_def)

lemma label_y_guarded_eq:
  "np_max_f (slice ms a b) = Inr c \<Longrightarrow>
   label_y_guarded ms a b = Inr (if isnan c then Fin 0.05 else fl_add c (Fin 0.05))"
  by (simp add: label_y_guarded_def label_y_def)

lemma texts_eq:
  assumes "np_max_f (slice ms 0 2) = Inr c0" "np_max_f (slice ms 3 6) = Inr c1"
    "np_max_f (slice ms 6 9) = Inr c2"
  shows "job_texts ms = Inr [(0.25, fl_add c0 (Fin 0.05), ''CP''),
           (1.25, if isnan c1 then Fin 0.05 else fl_add c1 (Fin 0.05), ''WT''),
           (2.25, fl_add c2 (Fin 0.05), ''MS'')]"
    and "task_texts ms = Inr [(0.25, fl_add c0 (Fin 0.05), ''EX''),
           (1.25, fl_add c1 (Fin 0.05), ''WT''), (2.25, fl_add c2 (Fin 0.05), ''TA'')]"
  using assms by (simp_all add: job_texts_def task_texts_def label_y_eq label_y_guarded_eq)

lemma normalize_example_bars:
  "normalize job_metrics example_bars =
   Inr \<lparr>avg = [Fin (1/8), Fin (1/4), Fin (3/4), NaN, NaN, NaN, Fin (1/2), Fin (1/2), Fin (2/3)],
        std = [Fin (1/8), Fin (1/4), Fin (1/4), NaN, NaN, NaN, Fin (1/6), Fin (1/6), Fin (1/3)],
        mn = [Fin 0, Fin 0, Fin (1/2), NaN, NaN, NaN, Fin (1/3), Fin (1/3), Fin (1/3)],
        mx = example_mx\<rparr>"
  by (simp add: example_bars_def example_mx_def eval_simps)

text \<open>
  Claim C2, as amended. For the second and the third cluster of a subplot the label is
  placed at the maximum of the cluster's three normalised \<^verbatim>\<open>mx\<close> values plus 0.05, except
  that the job pass places the label of its second cluster at 0.05 when that maximum is
  NaN. (Where the first cluster's label goes is left open.)
\<close>

theorem label_above_tallest_bar:
  assumes "length ms = 9"
    and "np_max_f (slice ms 3 6) = Inr c1" "np_max_f (slice ms 6 9) = Inr c2"
  shows "\<exists>y0 z0.
    job_texts ms = Inr [(0.25, y0, ''CP''),
      (1.25, if isnan c1 then Fin 0.05 else fl_add c1 (Fin 0.05), ''WT''),
      (2.25, fl_add c2 (Fin 0.05), ''MS'')]
    \<and> task_texts ms = Inr [(0.25, z0, ''EX''),
      (1.25, fl_add c1 (Fin 0.05), ''WT''), (2.25, fl_add c2 (Fin 0.05), ''TA'')]"
proof -
  obtain c0 where "np_max_f (slice ms 0 2) = Inr c0"
    using np_max_f_slice [of 0 2 ms] assms(1) by auto
  then show ?thesis using texts_eq [OF _ assms(2,3)] by blast
qed

theorem label_above_tallest_bar_witness:
  "length example_mx = 9
   \<and> np_max_f (slice example_mx 3 6) = Inr NaN
   \<and> np_max_f (slice example_mx 6 9) = Inr (Fin 1)
   \<and> (\<exists>y0 z0.
        job_texts example_mx
          = Inr [(0.25, y0, ''CP''), (1.25, Fin 0.05, ''WT''), (2.25, Fin 1.05, ''MS'')]
        \<and> task_texts example_mx
          = Inr [(0.25, z0, ''EX''), (1.25, NaN, ''WT''), (2.25, Fin 1.05, ''TA'')])"
  using label_above_tallest_bar [of example_mx NaN "Fin 1"]
  by (simp add: example_mx_def slice_def np_max_f_def np_maximum_def)

text \<open>
  The claim as first stated fails on the normalised maxima of \<open>example_bars\<close>. In the first
  cluster the tallest bar is the third one, of height 1, and the claimed position is 1.05;
  the label is computed from the first two bars only and lands at 0.55, inside the third
  bar. In the second cluster the maximum is NaN, so the claimed position is NaN, and the
  job pass places the label at 0.05.
\<close>

theorem label_above_tallest_bar_counterexample:
  "label_y example_mx 0 3 = Inr (Fin 1.05)
   \<and> label_y example_mx 3 6 = Inr NaN
   \<and> job_texts example_mx
       = Inr [(0.25, Fin 0.55, ''CP''), (1.25, Fin 0.05, ''WT''), (2.25, Fin 1.05, ''MS'')]"
  by (simp add: example_mx_def eval_simps)

lemma fl_add_nan: "isnan c \<Longrightarrow> fl_add c d = NaN"
  by (cases c) simp_all

text \<open>
  Claim C3, as amended. Only the job pass substitutes a fallback: when the maximum of its
  second cluster is NaN, that label is placed at 0.05. The other two labels of the job
  pass and all three labels of the task pass are placed at NaN when the maximum they are
  computed from is NaN.
\<close>

theorem nan_fallback_only_job_wt:
  assumes "length ms = 9"
  shows "\<exists>y0 y1 y2 z0 z1 z2.
    job_texts ms = Inr [(0.25, y0, ''CP''), (1.25, y1, ''WT''), (2.25, y2, ''MS'')]
    \<and> task_texts ms = Inr [(0.25, z0, ''EX''), (1.25, z1, ''WT''), (2.25, z2, ''TA'')]
    \<and> (np_max_f (slice ms 0 2) = Inr NaN \<longrightarrow> y0 = NaN \<and> z0 = NaN)
    \<and> (np_max_f (slice ms 3 6) = Inr NaN \<longrightarrow> y1 = Fin 0.05 \<and> z1 = NaN)
    \<and> (np_max_f (slice ms 6 9) = Inr NaN \<longrightarrow> y2 = NaN \<and> z2 = NaN)"
proof -
  obtain c0 where c0: "np_max_f (slice ms 0 2) = Inr c0"
    using np_max_f_slice [of 0 2 ms] assms(1) by auto
  obtain c1 where c1: "np_max_f (slice ms 3 6) = Inr c1"
    using np_max_f_slice [of 3 6 ms] assms(1) by auto
  obtain c2 where c2: "np_max_f (slice ms 6 9) = Inr c2"
    using np_max_f_slice [of 6 9 ms] assms(1) by auto
  show ?thesis
    using texts_eq [OF c0 c1 c2] c0 c1 c2 by simp
qed

theorem nan_fallback_only_job_wt_witness:
  "length (replicate 9 NaN) = 9
   \<and> np_max_f (slice (replicate 9 NaN) 0 2) = Inr NaN
   \<and> np_max_f (slice (replicate 9 NaN) 3 6) = Inr NaN
   \<and> np_max_f (slice (replicate 9 NaN) 6 9) = Inr NaN
   \<and> job_texts (replicate 9 NaN)
       = Inr [(0.25, NaN, ''CP''), (1.25, Fin 0.05, ''WT''), (2.25, NaN, ''MS'')]
   \<and> task_texts (replicate 9 NaN)
       = Inr [(0.25, NaN, ''EX''), (1.25, NaN, ''WT''), (2.25, NaN, ''TA'')]"
  using nan_fallback_only_job_wt [of "replicate 9 NaN"]
  by (auto simp add: slice_def np_max_f_def np_maximum_def numeral_eq_Suc)

text \<open>
  The claim as first stated (one substitution in each pass) fails in the task pass: when
  every metric value of a subplot is zero, all nine normalised maxima are NaN and all
  three labels of the task pass are placed at NaN; none is moved to 0.05.
\<close>

theorem nan_fallback_each_pass_counterexample:
  "normalize task_metrics zero_bars =
     Inr \<lparr>avg = replicate 9 NaN, std = replicate 9 NaN,
          mn = replicate 9 NaN, mx = replicate 9 NaN\<rparr>
   \<and> task_texts (replicate 9 NaN)
       = Inr [(0.25, NaN, ''EX''), (1.25, NaN, ''WT''), (2.25, NaN, ''TA'')]"
  by (simp add: zero_bars_def eval_simps numeral_eq_Suc)

section \<open>Loading\<close>

lemma build_dict_other:
  "build_dict f ks d = Inr d' \<Longrightarrow> k \<notin> set ks \<Longrightarrow> d' k = d k"
  by (induction ks arbitrary: d) (auto split: sum.splits)

lemma build_dict_ok:
  "build_dict f ks d = Inr d' \<Longrightarrow> k \<in> set ks \<Longrightarrow> \<exists>v. f k = Inr v \<and> d' k = Some v"
proof (induction ks arbitrary: d)
  case Nil
  then show ?case by simp
next
  case (Cons a ks)
  from Cons.prems(1) obtain v where v: "f a = Inr v"
      and rest: "build_dict f ks (d(a \<mapsto> v)) = Inr d'"
    by (auto split: sum.splits)
  show ?case
  proof (cases "k \<in> set ks")
    case True
    then show ?thesis using Cons.IH [OF rest] by simp
  next
    case False
    then have "k = a" using Cons.prems(2) by simp
    then show ?thesis using build_dict_other [OF rest False] v by simp
  qed
qed

lemma build_dict_total:
  "\<forall>k\<in>set ks. \<exists>v. f k = Inr v \<Longrightarrow> \<exists>d'. build_dict f ks d = Inr d'"
  by (induction ks arbitrary: d) auto

lemma build_dict_cong:
  "\<forall>k\<in>set ks. f k = g k \<Longrightarrow> build_dict f ks d = build_dict g ks d"
  by (induction ks arbitrary: d) (auto split: sum.splits)

lemma load_results_ok:
  assumes "load_results load = Inr r"
    and "setup \<in> set setups" "trace \<in> set traces" "sched \<in> set schedulers"
  shows "\<exists>r1 r2 v. r setup = Some r1 \<and> r1 trace = Some r2 \<and> r2 sched = Some v
    \<and> load setup trace sched = Inr v"
proof -
  obtain r1 where r1: "r setup = Some r1"
      "build_dict (\<lambda>trace. build_dict (\<lambda>sched. load setup trace sched) schedulers Map.empty)
         traces Map.empty = Inr r1"
    using build_dict_ok [OF assms(1) [unfolded load_results_def] assms(2)] by auto
  obtain r2 where r2: "r1 trace = Some r2"
      "build_dict (\<lambda>sched. load setup trace sched) schedulers Map.empty = Inr r2"
    using build_dict_ok [OF r1(2) assms(3)] by auto
  obtain v where "r2 sched = Some v" "load setup trace sched = Inr v"
    using build_dict_ok [OF r2(2) assms(4)] by auto
  then show ?thesis using r1(1) r2(1) by blast
qed

lemma load_results_total:
  assumes "\<forall>setup\<in>set setups. \<forall>trace\<in>set traces. \<forall>sched\<in>set schedulers.
    \<exists>v. load setup trace sched = Inr v"
  shows "\<exists>r. load_results load = Inr r"
  unfolding load_results_def
  by (intro build_dict_total ballI) (use assms in blast)

lemma load_results_cong:
  assumes "\<forall>setup\<in>set setups. \<forall>trace\<in>set traces. \<forall>sched\<in>set schedulers.
    load1 setup trace sched = load2 setup trace sched"
  shows "load_results load1 = load_results load2"
  unfolding load_results_def
  by (intro build_dict_cong ballI) (use assms in blast)

lemma load_file_cong:
  "fs1 path = fs2 path \<Longrightarrow> load_file fs1 path cols mets = load_file fs2 path cols mets"
  by (simp add: load_file_def open_csv_def)

lemma load_file_no_rows:
  "fs path = Some (Csv fieldnames []) \<Longrightarrow>
   load_file fs path (c1, c2, c3) (m1, m2, m3) = Inl ValueError"
  by (simp add: load_file_def open_csv_def aggregate_def np_min_def)

lemma render_other:
  "p \<notin> (\<lambda>s. s @ suffix) ` set ss \<Longrightarrow> snd (render tc ms suffix r ss fs) p = fs p"
  by (induction ss arbitrary: fs) (auto split: sum.splits)

lemma job_pdf_not_task_path: "s \<in> set setups \<Longrightarrow> s @ ''_job.pdf'' \<noteq> task_path a b c"
  by (auto simp add: setups_def task_path_def)

lemma job_pass_keeps_task_files:
  "snd (job_pass fs) (task_path a b c) = fs (task_path a b c)"
proof (cases "load_results (load_job fs)")
  case (Inl e)
  then show ?thesis by (simp add: job_pass_def)
next
  case (Inr r)
  have "task_path a b c \<notin> (\<lambda>s. s @ ''_job.pdf'') ` set setups"
  proof
    assume "task_path a b c \<in> (\<lambda>s. s @ ''_job.pdf'') ` set setups"
    then obtain s where "s \<in> set setups" "task_path a b c = s @ ''_job.pdf''" by auto
    then show False using job_pdf_not_task_path [of s a b c] by simp
  qed
  then show ?thesis using Inr by (simp add: job_pass_def render_other)
qed

lemma load_task_after_job_pass:
  "load_task (snd (job_pass fs)) a b c = load_task fs a b c"
  unfolding load_task_def by (rule load_file_cong) (rule job_pass_keeps_task_files)

lemma run_complete_loads:
  assumes "fst (run fs) = None"
    and "setup \<in> set setups" "trace \<in> set traces" "sched \<in> set schedulers"
  shows "(\<exists>v. load_job fs setup trace sched = Inr v)
    \<and> (\<exists>v. load_task fs setup trace sched = Inr v)"
proof -
  obtain fs' where j: "job_pass fs = (None, fs')" and t: "fst (task_pass fs') = None"
    using assms(1) by (auto simp add: run_def split: prod.splits option.splits)
  obtain r where "load_results (load_job fs) = Inr r"
    using j by (auto simp add: job_pass_def split: sum.splits)
  then have 1: "\<exists>v. load_job fs setup trace sched = Inr v"
    using load_results_ok [OF _ assms(2-4)] by blast
  obtain r' where "load_results (load_task fs') = Inr r'"
    using t by (auto simp add: task_pass_def split: sum.splits)
  then have "\<exists>v. load_task fs' setup trace sched = Inr v"
    using load_results_ok [OF _ assms(2-4)] by blast
  moreover have "fs' = snd (job_pass fs)" using j by simp
  ultimately have "\<exists>v. load_task fs setup trace sched = Inr v"
    by (simp add: load_task_after_job_pass)
  with 1 show ?thesis by simp
qed

lemma grid_members:
  "''setup'' \<in> set setups" "''shell'' \<in> set traces" "''FCP'' \<in> set schedulers"
  by (simp_all add: setups_def traces_def schedulers_def)

lemma header_only_fs_job:
  "header_only_fs (job_path ''setup'' ''shell'' ''FCP'')
     = Some (Csv [''critical_path'', ''waiting_time'', ''makespan''] [])"
  by (simp add: header_only_fs_def)

lemma run_header_only_fs: "run header_only_fs = (Some ValueError, header_only_fs)"
proof -
  have "load_job header_only_fs ''setup'' ''shell'' ''FCP'' = Inl ValueError"
    using header_only_fs_job by (simp add: load_job_def load_file_no_rows)
  then have "load_results (load_job header_only_fs) = Inl ValueError"
    by (simp add: load_results_def setups_def traces_def schedulers_def)
  then show ?thesis by (simp add: run_def job_pass_def)
qed

text \<open>
  Claim C7. If one of the job or task files of the grid holds field names and no data row,
  reading it yields three empty lists, the aggregation of an empty list raises (the
  \<^verbatim>\<open>ValueError\<close> of \<^verbatim>\<open>np.min\<close>), so loading that file raises instead of storing statistics,
  and the run as a whole ends with an exception.
\<close>

theorem empty_csv_aborts_run:
  assumes "setup \<in> set setups" "trace \<in> set traces" "sched \<in> set schedulers"
    and "fs (job_path setup trace sched) = Some (Csv fieldnames [])
       \<or> fs (task_path setup trace sched) = Some (Csv fieldnames [])"
  shows "read_rows c1 c2 c3 fieldnames [] ([], [], []) = Inr ([], [], [])
    \<and> aggregate [] = Inl ValueError
    \<and> (fs (job_path setup trace sched) = Some (Csv fieldnames []) \<longrightarrow>
         load_job fs setup trace sched = Inl ValueError)
    \<and> (fs (task_path setup trace sched) = Some (Csv fieldnames []) \<longrightarrow>
         load_task fs setup trace sched = Inl ValueError)
    \<and> (\<exists>e. fst (run fs) = Some e)"
proof -
  have "fst (run fs) \<noteq> None"
  proof
    assume "fst (run fs) = None"
    from run_complete_loads [OF this assms(1-3)] assms(4) show False
      by (auto simp add: load_job_def load_task_def load_file_no_rows)
  qed
  then show ?thesis
    by (auto simp add: load_job_def load_task_def load_file_no_rows aggregate_def np_min_def)
qed

text \<open>
  With the first job file of the grid reduced to its field names, the run stops in the
  first load and writes nothing.
\<close>

theorem empty_csv_aborts_run_witness:
  "header_only_fs (job_path ''setup'' ''shell'' ''FCP'')
     = Some (Csv [''critical_path'', ''waiting_time'', ''makespan''] [])
   \<and> load_job header_only_fs ''setup'' ''shell'' ''FCP'' = Inl ValueError
   \<and> run header_only_fs = (Some ValueError, header_only_fs)"
  using empty_csv_aborts_run [of "''setup''" "''shell''" "''FCP''" header_only_fs
      "[''critical_path'', ''waiting_time'', ''makespan'']"]
    grid_members header_only_fs_job run_header_only_fs
  by simp

section \<open>Rendering and the whole run\<close>

lemma int_cell_field:
  "int_cell fieldnames row col \<Longrightarrow> \<exists>k. int_field (dict_row fieldnames row) col = Inr k"
  by (auto simp add: int_cell_def int_field_def split: option.splits cell.splits)

lemma read_rows_ok:
  assumes "\<forall>row\<in>set rows. row \<noteq> [] \<longrightarrow>
    int_cell fn row c1 \<and> int_cell fn row c2 \<and> int_cell fn row c3"
  shows "\<exists>xs ys zs. read_rows c1 c2 c3 fn rows (a, b, c) = Inr (a @ xs, b @ ys, c @ zs)
    \<and> length xs = length (filter (\<lambda>r. r \<noteq> []) rows)
    \<and> length ys = length xs \<and> length zs = length xs"
  using assms
proof (induction rows arbitrary: a b c)
  case Nil
  then show ?case by simp
next
  case (Cons row rows)
  show ?case
  proof (cases "row = []")
    case True
    then show ?thesis using Cons.IH [of a b c] Cons.prems by simp
  next
    case False
    then obtain x y z where f: "int_field (dict_row fn row) c1 = Inr x"
        "int_field (dict_row fn row) c2 = Inr y" "int_field (dict_row fn row) c3 = Inr z"
      using Cons.prems int_cell_field by (metis list.set_intros(1))
    obtain xs ys zs where r: "read_rows c1 c2 c3 fn rows (a @ [x], b @ [y], c @ [z])
          = Inr ((a @ [x]) @ xs, (b @ [y]) @ ys, (c @ [z]) @ zs)"
        "length xs = length (filter (\<lambda>r. r \<noteq> []) rows)"
        "length ys = length xs" "length zs = length xs"
      using Cons.IH [of "a @ [x]" "b @ [y]" "c @ [z]"] Cons.prems by auto
    have "read_rows c1 c2 c3 fn (row # rows) (a, b, c)
        = Inr (a @ (x # xs), b @ (y # ys), c @ (z # zs))"
      using False f r(1) by simp
    moreover have "length (x # xs) = length (filter (\<lambda>r. r \<noteq> []) (row # rows))"
      using False r(2) by simp
    ultimately show ?thesis using r(3,4) by (metis length_Cons)
  qed
qed

lemma aggregate_length: "aggregate xs = Inr s \<Longrightarrow> length s = 4"
  by (auto simp add: aggregate_def Let_def split: sum.splits)

lemma aggregate_total: "xs \<noteq> [] \<Longrightarrow> \<exists>s. aggregate xs = Inr s"
  by (simp add: aggregate_nonempty)

lemma load_file_ok:
  assumes "usable (c1, c2, c3) (fs path)"
  shows "\<exists>v. load_file fs path (c1, c2, c3) (m1, m2, m3) = Inr v"
proof -
  obtain fn rows where f: "fs path = Some (Csv fn rows)"
      and nr: "\<exists>row\<in>set rows. row \<noteq> []"
      and ok: "\<forall>row\<in>set rows. row \<noteq> [] \<longrightarrow>
        int_cell fn row c1 \<and> int_cell fn row c2 \<and> int_cell fn row c3"
    using assms by (auto simp add: usable_def split: option.splits content.splits)
  obtain xs ys zs where r: "read_rows c1 c2 c3 fn rows ([], [], []) = Inr (xs, ys, zs)"
      "length xs = length (filter (\<lambda>r. r \<noteq> []) rows)"
      "length ys = length xs" "length zs = length xs"
    using read_rows_ok [OF ok, of "[]" "[]" "[]"] by auto
  have "filter (\<lambda>r. r \<noteq> []) rows \<noteq> []"
    using nr by (simp add: filter_empty_conv)
  then have ne: "xs \<noteq> []" "ys \<noteq> []" "zs \<noteq> []" using r(2-4) by auto
  obtain sx where sx: "aggregate xs = Inr sx" using aggregate_total [OF ne(1)] ..
  obtain sy where sy: "aggregate ys = Inr sy" using aggregate_total [OF ne(2)] ..
  obtain sz where sz: "aggregate zs = Inr sz" using aggregate_total [OF ne(3)] ..
  from sx sy sz
  show ?thesis using f r(1) by (simp add: load_file_def open_csv_def)
qed

lemma load_file_entries:
  assumes "load_file fs path cols (m1, m2, m3) = Inr v" "m \<in> {m1, m2, m3}"
  shows "\<exists>s. v m = Some s \<and> length s = 4"
proof -
  obtain sx sy sz where v: "v = [m1 \<mapsto> sx, m2 \<mapsto> sy, m3 \<mapsto> sz]"
      and a: "length sx = 4" "length sy = 4" "length sz = 4"
    using assms(1)
    by (auto simp add: load_file_def split: prod.splits sum.splits dest: aggregate_length)
  show ?thesis using assms(2) a unfolding v by auto
qed

lemma stat_of_ok:
  assumes "r setup = Some r1" "r1 trace = Some r2" "r2 sched = Some v" "v metric = Some s"
    "length s = 4" "k < 4"
  shows "stat_of r setup trace sched metric k = Inr (s ! k)"
  using assms by (simp add: stat_of_def lookup_def index_def)

lemma gather_scheds_ok:
  assumes "\<forall>sched\<in>set ss. \<forall>k<4. \<exists>x. stat_of r setup trace sched metric k = Inr x"
  shows "\<exists>b'. gather_scheds r setup trace metric ss b = Inr b'
    \<and> length (avg b') = length (avg b) + length ss
    \<and> length (std b') = length (std b) + length ss
    \<and> length (mn b') = length (mn b) + length ss
    \<and> length (mx b') = length (mx b) + length ss"
  using assms
proof (induction ss arbitrary: b)
  case Nil
  then show ?case by simp
next
  case (Cons sched ss)
  have "\<forall>k<4. \<exists>x. stat_of r setup trace sched metric k = Inr x"
    using Cons.prems by simp
  then have "\<exists>x. stat_of r setup trace sched metric 0 = Inr x"
      "\<exists>x. stat_of r setup trace sched metric 1 = Inr x"
      "\<exists>x. stat_of r setup trace sched metric 2 = Inr x"
      "\<exists>x. stat_of r setup trace sched metric 3 = Inr x"
    by simp_all
  then obtain a s lo hi where st: "stat_of r setup trace sched metric 0 = Inr a"
      "stat_of r setup trace sched metric 1 = Inr s"
      "stat_of r setup trace sched metric 2 = Inr lo"
      "stat_of r setup trace sched metric 3 = Inr hi"
    by blast
  let ?b = "\<lparr>avg = avg b @ [a], std = std b @ [s], mn = mn b @ [lo], mx = mx b @ [hi]\<rparr>"
  obtain b' where "gather_scheds r setup trace metric ss ?b = Inr b'"
      "length (avg b') = length (avg ?b) + length ss"
      "length (std b') = length (std ?b) + length ss"
      "length (mn b') = length (mn ?b) + length ss"
      "length (mx b') = length (mx ?b) + length ss"
    using Cons.IH [of ?b] Cons.prems by auto
  then show ?case using st by simp
qed

lemma gather_metrics_ok:
  assumes "\<forall>metric\<in>set ms. \<forall>sched\<in>set schedulers. \<forall>k<4.
    \<exists>x. stat_of r setup trace sched metric k = Inr x"
  shows "\<exists>b'. gather_metrics r setup trace ms b = Inr b'
    \<and> length (avg b') = length (avg b) + 3 * length ms
    \<and> length (std b') = length (std b) + 3 * length ms
    \<and> length (mn b') = length (mn b) + 3 * length ms
    \<and> length (mx b') = length (mx b) + 3 * length ms"
  using assms
proof (induction ms arbitrary: b)
  case Nil
  then show ?case by simp
next
  case (Cons metric ms)
  have "\<forall>sched\<in>set schedulers. \<forall>k<4. \<exists>x. stat_of r setup trace sched metric k = Inr x"
    using Cons.prems by simp
  from gather_scheds_ok [OF this, of b]
  obtain b1 where b1: "gather_scheds r setup trace metric schedulers b = Inr b1"
      "length (avg b1) = length (avg b) + 3" "length (std b1) = length (std b) + 3"
      "length (mn b1) = length (mn b) + 3" "length (mx b1) = length (mx b) + 3"
    by (auto simp add: schedulers_def)
  obtain b' where "gather_metrics r setup trace ms b1 = Inr b'"
      "length (avg b') = length (avg b1) + 3 * length ms"
      "length (std b') = length (std b1) + 3 * length ms"
      "length (mn b') = length (mn b1) + 3 * length ms"
      "length (mx b') = length (mx b1) + 3 * length ms"
    using Cons.IH [of b1] Cons.prems by auto
  then show ?case using b1 by simp
qed

lemma normalize_ok:
  assumes "length metrics = 3" "length (avg b) = 9" "length (std b) = 9"
    "length (mn b) = 9" "length (mx b) = 9"
  shows "\<exists>b'. normalize metrics b = Inr b' \<and> length (mx b') = 9"
proof -
  obtain m0 where m0: "np_max_f (slice (mx b) 0 3) = Inr m0"
    using np_max_f_slice [of 0 3 "mx b"] assms by auto
  obtain m1 where m1: "np_max_f (slice (mx b) 3 6) = Inr m1"
    using np_max_f_slice [of 3 6 "mx b"] assms by auto
  obtain m2 where m2: "np_max_f (slice (mx b) 6 9) = Inr m2"
    using np_max_f_slice [of 6 9 "mx b"] assms by auto
  show ?thesis
    using normalize_three [OF assms(1) assms(5) m0 m1 m2] assms(5)
    by (simp add: length_div3)
qed

lemma texts_ok:
  assumes "length ms = 9"
  shows "\<exists>ts. job_texts ms = Inr ts" and "\<exists>ts. task_texts ms = Inr ts"
proof -
  obtain c0 where c0: "np_max_f (slice ms 0 2) = Inr c0"
    using np_max_f_slice [of 0 2 ms] assms(1) by auto
  obtain c1 where c1: "np_max_f (slice ms 3 6) = Inr c1"
    using np_max_f_slice [of 3 6 ms] assms(1) by auto
  obtain c2 where c2: "np_max_f (slice ms 6 9) = Inr c2"
    using np_max_f_slice [of 6 9 ms] assms(1) by auto
  show "\<exists>ts. job_texts ms = Inr ts" "\<exists>ts. task_texts ms = Inr ts"
    using texts_eq [OF c0 c1 c2] by simp_all
qed

lemma draw_subplot_ok:
  assumes "length metrics = 3"
    and "\<forall>metric\<in>set metrics. \<forall>sched\<in>set schedulers. \<forall>k<4.
      \<exists>x. stat_of r setup trace sched metric k = Inr x"
    and "\<forall>ms. length ms = 9 \<longrightarrow> (\<exists>ts. tc ms = Inr ts)"
  shows "\<exists>p. draw_subplot tc metrics r setup trace = Inr p"
proof -
  obtain b where b: "gather r metrics setup trace = Inr b"
      "length (avg b) = 9" "length (std b) = 9" "length (mn b) = 9" "length (mx b) = 9"
    using gather_metrics_ok [OF assms(2), of "\<lparr>avg = [], std = [], mn = [], mx = []\<rparr>"] assms(1)
    by (auto simp add: gather_def)
  obtain b' where b': "normalize metrics b = Inr b'" "length (mx b') = 9"
    using normalize_ok [OF assms(1) b(2-5)] by blast
  obtain ts where "tc (mx b') = Inr ts" using assms(3) b'(2) by blast
  then show ?thesis using b(1) b'(1) by (simp add: draw_subplot_def)
qed

lemma draw_subplots_ok:
  assumes "\<forall>trace\<in>set ts. \<exists>p. draw_subplot tc metrics r setup trace = Inr p"
  shows "\<exists>fig. draw_subplots tc metrics r setup ts = Inr fig"
  using assms by (induction ts) auto

lemma render_ok:
  assumes "\<forall>s\<in>set ss. \<exists>fig. draw_subplots tc ms r s traces = Inr fig"
  shows "fst (render tc ms suffix r ss fs) = None"
  using assms by (induction ss arbitrary: fs) auto

lemma render_written:
  assumes "fst (render tc ms suffix r ss fs) = None" "s \<in> set ss"
  shows "\<exists>fig. draw_subplots tc ms r s traces = Inr fig
    \<and> snd (render tc ms suffix r ss fs) (s @ suffix) = Some (Pdf fig)"
  using assms
proof (induction ss arbitrary: fs)
  case Nil
  then show ?case by simp
next
  case (Cons a ss)
  from Cons.prems(1) obtain fig where fig: "draw_subplots tc ms r a traces = Inr fig"
      and rest: "fst (render tc ms suffix r ss (fs(a @ suffix \<mapsto> Pdf fig))) = None"
    by (auto split: sum.splits)
  have step: "render tc ms suffix r (a # ss) fs
      = render tc ms suffix r ss (fs(a @ suffix \<mapsto> Pdf fig))"
    using fig by simp
  show ?case
  proof (cases "s \<in> set ss")
    case True
    show ?thesis unfolding step using Cons.IH [OF rest True] .
  next
    case False
    then have s: "s = a" using Cons.prems(2) by simp
    have "a @ suffix \<notin> (\<lambda>s. s @ suffix) ` set ss" using False s by auto
    then have "snd (render tc ms suffix r ss (fs(a @ suffix \<mapsto> Pdf fig))) (a @ suffix)
        = (fs(a @ suffix \<mapsto> Pdf fig)) (a @ suffix)"
      by (rule render_other)
    then have "snd (render tc ms suffix r ss (fs(a @ suffix \<mapsto> Pdf fig))) (a @ suffix)
        = Some (Pdf fig)"
      by simp
    then show ?thesis unfolding step s using fig by blast
  qed
qed

text \<open>After a successful load every entry of the table can be read.\<close>

lemma loaded_table_complete:
  assumes "load_results load = Inr r"
    and "\<And>setup trace sched v. load setup trace sched = Inr v \<Longrightarrow>
      \<forall>m\<in>set metrics. \<exists>s. v m = Some s \<and> length s = 4"
    and "setup \<in> set setups" "trace \<in> set traces"
  shows "\<forall>metric\<in>set metrics. \<forall>sched\<in>set schedulers. \<forall>k<4.
    \<exists>x. stat_of r setup trace sched metric k = Inr x"
proof (intro ballI allI impI)
  fix metric sched and k :: nat
  assume m: "metric \<in> set metrics" and c: "sched \<in> set schedulers" and k: "k < 4"
  obtain r1 r2 v where t: "r setup = Some r1" "r1 trace = Some r2" "r2 sched = Some v"
      "load setup trace sched = Inr v"
    using load_results_ok [OF assms(1,3,4) c] by blast
  obtain s where s: "v metric = Some s" "length s = 4"
    using assms(2) [OF t(4)] m by blast
  show "\<exists>x. stat_of r setup trace sched metric k = Inr x"
    using stat_of_ok [of r "setup" r1 trace r2 sched v metric s k] t(1-3) s k by blast
qed

lemma render_after_load:
  assumes "load_results load = Inr r"
    and "\<And>setup trace sched v. load setup trace sched = Inr v \<Longrightarrow>
      \<forall>m\<in>set metrics. \<exists>s. v m = Some s \<and> length s = 4"
    and "length metrics = 3"
    and "\<forall>ms. length ms = 9 \<longrightarrow> (\<exists>ts. tc ms = Inr ts)"
  shows "fst (render tc metrics suffix r setups fs) = None"
proof (rule render_ok, intro ballI)
  fix s assume s: "s \<in> set setups"
  show "\<exists>fig. draw_subplots tc metrics r s traces = Inr fig"
  proof (rule draw_subplots_ok, intro ballI)
    fix t assume t: "t \<in> set traces"
    show "\<exists>p. draw_subplot tc metrics r s t = Inr p"
      using draw_subplot_ok [OF assms(3) loaded_table_complete [OF assms(1,2) s t] assms(4)] .
  qed
qed

lemma load_job_entries:
  "load_job fs setup trace sched = Inr v \<Longrightarrow>
   \<forall>m\<in>set job_metrics. \<exists>s. v m = Some s \<and> length s = 4"
  using load_file_entries [of fs _ _ "''CP''" "''WT''" "''MS''" v]
  by (auto simp add: load_job_def job_metrics_def)

lemma load_task_entries:
  "load_task fs setup trace sched = Inr v \<Longrightarrow>
   \<forall>m\<in>set task_metrics. \<exists>s. v m = Some s \<and> length s = 4"
  using load_file_entries [of fs _ _ "''EX''" "''WT''" "''TA''" v]
  by (auto simp add: load_task_def task_metrics_def)

lemma job_pass_outcome:
  "fst (job_pass fs) = (case load_results (load_job fs) of Inl e \<Rightarrow> Some e | Inr r \<Rightarrow> None)"
proof (cases "load_results (load_job fs)")
  case (Inl e)
  then show ?thesis by (simp add: job_pass_def)
next
  case (Inr r)
  have "fst (render job_texts job_metrics ''_job.pdf'' r setups fs) = None"
    using render_after_load [OF Inr load_job_entries] texts_ok(1)
    by (simp add: job_metrics_def)
  then show ?thesis using Inr by (simp add: job_pass_def)
qed

lemma task_pass_outcome:
  "fst (task_pass fs) = (case load_results (load_task fs) of Inl e \<Rightarrow> Some e | Inr r \<Rightarrow> None)"
proof (cases "load_results (load_task fs)")
  case (Inl e)
  then show ?thesis by (simp add: task_pass_def)
next
  case (Inr r)
  have "fst (render task_texts task_metrics ''_task.pdf'' r setups fs) = None"
    using render_after_load [OF Inr load_task_entries] texts_ok(2)
    by (simp add: task_metrics_def)
  then show ?thesis using Inr by (simp add: task_pass_def)
qed

lemma run_eq: "fst (job_pass fs) = None \<Longrightarrow> run fs = task_pass (snd (job_pass fs))"
  by (cases "job_pass fs") (simp add: run_def)

lemma run_None:
  "fst (run fs) = None \<Longrightarrow> fst (job_pass fs) = None \<and> fst (task_pass (snd (job_pass fs))) = None"
  by (cases "job_pass fs") (auto simp add: run_def split: option.splits)

lemma load_results_task_after_job_pass:
  "load_results (load_task (snd (job_pass fs))) = load_results (load_task fs)"
  by (rule load_results_cong) (simp add: load_task_after_job_pass)

lemma run_completes:
  assumes "inputs_usable fs"
  shows "fst (run fs) = None"
proof -
  have "\<forall>setup\<in>set setups. \<forall>trace\<in>set traces. \<forall>sched\<in>set schedulers.
      \<exists>v. load_job fs setup trace sched = Inr v"
    using assms by (simp add: inputs_usable_def load_job_def load_file_ok)
  then obtain r where "load_results (load_job fs) = Inr r"
    using load_results_total by blast
  then have j: "fst (job_pass fs) = None" by (simp add: job_pass_outcome)
  have "\<forall>setup\<in>set setups. \<forall>trace\<in>set traces. \<forall>sched\<in>set schedulers.
      \<exists>v. load_task fs setup trace sched = Inr v"
    using assms by (simp add: inputs_usable_def load_task_def load_file_ok)
  then obtain r' where "load_results (load_task fs) = Inr r'"
    using load_results_total by blast
  then have "fst (task_pass (snd (job_pass fs))) = None"
    by (simp add: task_pass_outcome load_results_task_after_job_pass)
  then show ?thesis using run_eq [OF j] by simp
qed




lemma task_pass_render:
  assumes "fst (task_pass fs) = None"
  shows "\<exists>r. load_results (load_task fs) = Inr r
    \<and> task_pass fs = render task_texts task_metrics ''_task.pdf'' r setups fs"
  using assms by (auto simp add: task_pass_def split: sum.splits)


lemma job_path_ne_task_path: "job_path a b c \<noteq> task_path a' b' c'"
proof
  assume "job_path a b c = task_path a' b' c'"
  then have "rev (job_path a b c) = rev (task_path a' b' c')" by simp
  then show False by (simp add: job_path_def task_path_def)
qed

lemma in_job_paths:
  "s \<in> set setups \<Longrightarrow> t \<in> set traces \<Longrightarrow> c \<in> set schedulers \<Longrightarrow>
   job_path s t c \<in> set job_paths"
  by (auto simp add: job_paths_def)

lemma in_task_paths:
  "s \<in> set setups \<Longrightarrow> t \<in> set traces \<Longrightarrow> c \<in> set schedulers \<Longrightarrow>
   task_path s t c \<in> set task_paths"
  by (auto simp add: task_paths_def)

lemma job_path_not_task: "job_path s t c \<notin> set task_paths"
  by (auto simp add: task_paths_def job_path_ne_task_path)

lemma usable_job_csv:
  "usable (''critical_path'', ''waiting_time'', ''makespan'') (Some job_csv)"
  "usable (''critical_path'', ''waiting_time'', ''makespan'') (Some job_csv_other)"
  by (simp_all add: usable_def job_csv_def job_csv_other_def int_cell_def dict_row_def)

lemma usable_task_csv:
  "usable (''execution'', ''waiting'', ''turnaround'') (Some task_csv)"
  by (simp add: usable_def task_csv_def int_cell_def dict_row_def)

lemma sample_fs_usable: "inputs_usable sample_fs"
  by (simp add: inputs_usable_def sample_fs_def in_job_paths in_task_paths job_path_not_task
      usable_job_csv usable_task_csv)

lemma other_fs_usable: "inputs_usable other_fs"
  by (simp add: inputs_usable_def other_fs_def in_job_paths in_task_paths job_path_not_task
      usable_job_csv usable_task_csv)

lemma sample_fs_job: "sample_fs (job_path ''setup'' ''shell'' ''FCP'') = Some job_csv"
  by (simp add: sample_fs_def in_job_paths grid_members job_path_not_task)

lemma other_fs_job: "other_fs (job_path ''setup'' ''shell'' ''FCP'') = Some job_csv_other"
  by (simp add: other_fs_def in_job_paths grid_members job_path_not_task)

lemma fs_agree_on_task_files:
  "list_all (\<lambda>p. sample_fs p = other_fs p) task_paths"
  by (simp add: list_all_iff sample_fs_def other_fs_def)



text \<open>
  Claim C10. If two file systems hold the same task files at every point of the grid and
  the script runs to its end on both, then for every setup the figure saved as
  \<open>setup @ ''_task.pdf''\<close> is the same in both runs, whatever the job files hold.
\<close>

theorem task_figures_from_task_files_only:
  assumes "\<forall>setup\<in>set setups. \<forall>trace\<in>set traces. \<forall>sched\<in>set schedulers.
      fs1 (task_path setup trace sched) = fs2 (task_path setup trace sched)"
    and "fst (run fs1) = None" "fst (run fs2) = None"
    and "setup \<in> set setups"
  shows "\<exists>fig. snd (run fs1) (setup @ ''_task.pdf'') = Some (Pdf fig)
    \<and> snd (run fs2) (setup @ ''_task.pdf'') = Some (Pdf fig)"
proof -
  let ?a = "snd (job_pass fs1)" and ?b = "snd (job_pass fs2)"
  have "load_task fs1 s t c = load_task fs2 s t c"
    if "s \<in> set setups" "t \<in> set traces" "c \<in> set schedulers" for s t c
    unfolding load_task_def by (rule load_file_cong) (use assms(1) that in simp)
  then have "load_results (load_task fs1) = load_results (load_task fs2)"
    by (intro load_results_cong) simp
  then have same: "load_results (load_task ?a) = load_results (load_task ?b)"
    by (simp add: load_results_task_after_job_pass)
  have j1: "fst (job_pass fs1) = None" and t1: "fst (task_pass ?a) = None"
    using run_None [OF assms(2)] by simp_all
  have j2: "fst (job_pass fs2) = None" and t2: "fst (task_pass ?b) = None"
    using run_None [OF assms(3)] by simp_all
  obtain r where r: "load_results (load_task ?a) = Inr r"
      "task_pass ?a = render task_texts task_metrics ''_task.pdf'' r setups ?a"
    using task_pass_render [OF t1] by blast
  have r2: "task_pass ?b = render task_texts task_metrics ''_task.pdf'' r setups ?b"
    using task_pass_render [OF t2] r(1) same by auto
  have run1: "run fs1 = render task_texts task_metrics ''_task.pdf'' r setups ?a"
    using run_eq [OF j1] r(2) by simp
  have run2: "run fs2 = render task_texts task_metrics ''_task.pdf'' r setups ?b"
    using run_eq [OF j2] r2 by simp
  obtain fig where "draw_subplots task_texts task_metrics r setup traces = Inr fig"
      "snd (run fs1) (setup @ ''_task.pdf'') = Some (Pdf fig)"
    using render_written [of task_texts task_metrics "''_task.pdf''" r setups ?a "setup"]
      assms(2,4) unfolding run1 by auto
  moreover obtain fig' where "draw_subplots task_texts task_metrics r setup traces = Inr fig'"
      "snd (run fs2) (setup @ ''_task.pdf'') = Some (Pdf fig')"
    using render_written [of task_texts task_metrics "''_task.pdf''" r setups ?b "setup"]
      assms(3,4) unfolding run2 by auto
  ultimately show ?thesis by simp
qed

theorem task_figures_from_task_files_only_witness:
  "list_all (\<lambda>p. sample_fs p = other_fs p) task_paths
   \<and> sample_fs (job_path ''setup'' ''shell'' ''FCP'')
       \<noteq> other_fs (job_path ''setup'' ''shell'' ''FCP'')
   \<and> fst (run sample_fs) = None \<and> fst (run other_fs) = None
   \<and> (\<exists>fig. snd (run sample_fs) (''setup'' @ ''_task.pdf'') = Some (Pdf fig)
         \<and> snd (run other_fs) (''setup'' @ ''_task.pdf'') = Some (Pdf fig))"
proof -
  have a: "\<forall>setup\<in>set setups. \<forall>trace\<in>set traces. \<forall>sched\<in>set schedulers.
      sample_fs (task_path setup trace sched) = other_fs (task_path setup trace sched)"
    by (simp add: sample_fs_def other_fs_def in_task_paths)
  have c: "fst (run sample_fs) = None" "fst (run other_fs) = None"
    using sample_fs_usable other_fs_usable by (simp_all add: run_completes)
  have d: "sample_fs (job_path ''setup'' ''shell'' ''FCP'')
      \<noteq> other_fs (job_path ''setup'' ''shell'' ''FCP'')"
    by (simp add: sample_fs_job other_fs_job job_csv_def job_csv_other_def)
  show ?thesis
    using task_figures_from_task_files_only [OF a c grid_members(1)] c d
      fs_agree_on_task_files by simp
qed

end
